theory Spec2Isabelle
  imports Complex_Main
begin

section \<open>Numbers\<close>

text \<open>
  Python integers are unbounded and exact, hence \<open>int\<close>. A Python float is an IEEE
  double; its value is a \<open>real\<close>. \<open>int(x)\<close> truncates towards zero; \<open>round(x)\<close> on
  a float rounds to the nearest integer and sends a tie to the even neighbour.
\<close>

definition py_int :: "real \<Rightarrow> int" where
  "py_int x = (if x < 0 then \<lceil>x\<rceil> else \<lfloor>x\<rfloor>)"

definition py_round :: "real \<Rightarrow> int" where
  "py_round x =
     (let f = \<lfloor>x\<rfloor>; d = x - of_int f
      in if d < 1 / 2 then f else if 1 / 2 < d then f + 1
         else if even f then f else f + 1)"

text \<open>
  The result of a float operation is the exact result rounded to the nearest double,
  a tie going to the even significand: \<open>fl\<close>. A double has a significand of 53 bits,
  so a value between \<open>2^e\<close> and \<open>2^(e+1)\<close> is rounded to a multiple of
  \<open>2^(e-52)\<close>. The exponent range is taken to be unbounded (no overflow, no
  subnormal numbers). The line rasterizers, whose pixels depend on how the rounding
  accumulates, are modelled with \<open>fl\<close> at every float operation; the transformation
  engine, the thick rendering and the hit test are modelled in exact real arithmetic.
\<close>

definition fl :: "real \<Rightarrow> real" where
  "fl x = (if x = 0 then 0
           else let e = \<lfloor>log 2 \<bar>x\<bar>\<rfloor> - 52
                in of_int (py_round (x / 2 powr of_int e)) * 2 powr of_int e)"

section \<open>Coordinate mapper\<close>

text \<open>
  The canvas midpoints \<open>MID_X\<close> and \<open>MID_Y\<close> are module globals that
  \<open>update_canvas_dimensions\<close> rewrites on every resize; the two mapping functions
  read them. Here they are parameters. Python integers are unbounded, hence \<open>int\<close>.
\<close>

definition logical_to_screen :: "int \<Rightarrow> int \<Rightarrow> int \<Rightarrow> int \<Rightarrow> int \<times> int" where
  "logical_to_screen MID_X MID_Y lx ly = (let sx = lx + MID_X; sy = MID_Y - ly in (sx, sy))"

definition screen_to_logical :: "int \<Rightarrow> int \<Rightarrow> int \<Rightarrow> int \<Rightarrow> int \<times> int" where
  "screen_to_logical MID_X MID_Y sx sy = (let lx = sx - MID_X; ly = MID_Y - sy in (lx, ly))"

section \<open>Scan conversion of lines\<close>

text \<open>
  A rasterizer is called with Python numbers: integers for an object as it was drawn,
  floats once a rotation or a scaling has been applied. The operations the rasterizers
  use are those of Python: between two integers they are exact; when a float takes part
  the integer operand is converted by \<open>float(..)\<close> and the result is rounded;
  \<open>int / int\<close> is the quotient rounded to a double; comparisons are by value.
\<close>

datatype pynum = PyInt int | PyFloat real

fun val :: "pynum \<Rightarrow> real" where
  "val (PyInt a) = of_int a"
| "val (PyFloat x) = x"

fun py_float :: "pynum \<Rightarrow> real" where
  "py_float (PyInt a) = fl (of_int a)"
| "py_float (PyFloat x) = x"

fun py_sub :: "pynum \<Rightarrow> pynum \<Rightarrow> pynum" where
  "py_sub (PyInt a) (PyInt b) = PyInt (a - b)"
| "py_sub a b = PyFloat (fl (py_float a - py_float b))"

fun py_add :: "pynum \<Rightarrow> pynum \<Rightarrow> pynum" where
  "py_add (PyInt a) (PyInt b) = PyInt (a + b)"
| "py_add a b = PyFloat (fl (py_float a + py_float b))"

fun py_abs :: "pynum \<Rightarrow> pynum" where
  "py_abs (PyInt a) = PyInt \<bar>a\<bar>"
| "py_abs (PyFloat x) = PyFloat \<bar>x\<bar>"

definition py_less :: "pynum \<Rightarrow> pynum \<Rightarrow> bool" where
  "py_less a b = (val a < val b)"

text \<open>\<open>max(a, b)\<close> keeps \<open>a\<close> unless \<open>b\<close> is greater.\<close>

definition py_max :: "pynum \<Rightarrow> pynum \<Rightarrow> pynum" where
  "py_max a b = (if py_less a b then b else a)"

text \<open>\<open>int(x)\<close>.\<close>

fun py_trunc :: "pynum \<Rightarrow> int" where
  "py_trunc (PyInt a) = a"
| "py_trunc (PyFloat x) = py_int x"

text \<open>\<open>x / n\<close> for an integer \<open>n\<close> that is not zero.\<close>

fun py_truediv :: "pynum \<Rightarrow> int \<Rightarrow> real" where
  "py_truediv (PyInt a) n = fl (of_int a / of_int n)"
| "py_truediv (PyFloat x) n = fl (x / fl (of_int n))"

text \<open>
  Every rasterizer hands its points to \<open>plot_styled_pixel\<close>, one call per point, with
  the style and mask passed through unchanged. A rasterizer is modelled by the list of
  these calls in order: logical x, logical y (by value), step index and total step
  count.
\<close>

type_synonym plot_call = "real \<times> real \<times> int \<times> int"

definition pixels :: "plot_call list \<Rightarrow> (real \<times> real) list" where
  "pixels calls = map (\<lambda>(x, y, i, n). (x, y)) calls"

text \<open>
  The body of \<open>for i in range(..)\<close> of \<open>dda_line\<close> (and of the first pass of
  \<open>symmetrical_dda_line\<close>): the first argument counts the iterations left, \<open>i\<close> is
  the step index passed to the plot call, \<open>x\<close> and \<open>y\<close> are the float accumulators.
\<close>

fun dda_loop :: "nat \<Rightarrow> int \<Rightarrow> int \<Rightarrow> real \<Rightarrow> real \<Rightarrow> real \<Rightarrow> real \<Rightarrow> plot_call list" where
  "dda_loop 0 i steps x_inc y_inc x y = []"
| "dda_loop (Suc n) i steps x_inc y_inc x y =
     (of_int (py_round x), of_int (py_round y), i, steps)
       # dda_loop n (i + 1) steps x_inc y_inc (fl (x + x_inc)) (fl (y + y_inc))"

definition dda_steps :: "pynum \<Rightarrow> pynum \<Rightarrow> pynum \<Rightarrow> pynum \<Rightarrow> int" where
  "dda_steps x1 y1 x2 y2 =
     (let dx = py_sub x2 x1; dy = py_sub y2 y1 in py_trunc (py_max (py_abs dx) (py_abs dy)))"

definition dda_line :: "pynum \<Rightarrow> pynum \<Rightarrow> pynum \<Rightarrow> pynum \<Rightarrow> plot_call list" where
  "dda_line x1 y1 x2 y2 =
     (let dx = py_sub x2 x1; dy = py_sub y2 y1;
          steps = dda_steps x1 y1 x2 y2
      in if steps = 0 then [(val x1, val y1, 0, 0)]
         else let x_inc = py_truediv dx steps; y_inc = py_truediv dy steps
              in dda_loop (nat (steps + 1)) 0 steps x_inc y_inc (py_float x1) (py_float y1))"

text \<open>The second pass of \<open>symmetrical_dda_line\<close> walks back from the far endpoint.\<close>

fun sdda_back_loop :: "nat \<Rightarrow> int \<Rightarrow> int \<Rightarrow> real \<Rightarrow> real \<Rightarrow> real \<Rightarrow> real \<Rightarrow> plot_call list" where
  "sdda_back_loop 0 i steps x_inc y_inc x_mid y_mid = []"
| "sdda_back_loop (Suc n) i steps x_inc y_inc x_mid y_mid =
     (of_int (py_round x_mid), of_int (py_round y_mid), i + (steps div 2) + 1, steps)
       # sdda_back_loop n (i + 1) steps x_inc y_inc (fl (x_mid - x_inc)) (fl (y_mid - y_inc))"

definition symmetrical_dda_line :: "pynum \<Rightarrow> pynum \<Rightarrow> pynum \<Rightarrow> pynum \<Rightarrow> plot_call list" where
  "symmetrical_dda_line x1 y1 x2 y2 =
     (let dx = py_sub x2 x1; dy = py_sub y2 y1;
          steps = py_trunc (py_max (py_abs dx) (py_abs dy))
      in if steps = 0 then [(val x1, val y1, 0, 0)]
         else let x_inc = py_truediv dx steps; y_inc = py_truediv dy steps
              in dda_loop (nat (steps div 2 + 1)) 0 steps x_inc y_inc (py_float x1) (py_float y1)
                 @ sdda_back_loop (nat (steps - steps div 2)) 0 steps x_inc y_inc
                     (py_float x2) (py_float y2))"

text \<open>
  Bresenham: \<open>dx\<close>, \<open>dy\<close> and the decision variable \<open>p\<close> are integers after
  \<open>int(..)\<close>; the running point \<open>x, y\<close> starts at the endpoint as given and moves by
  the signs \<open>sx, sy\<close>.
\<close>

fun bresenham_loop ::
  "nat \<Rightarrow> int \<Rightarrow> bool \<Rightarrow> int \<Rightarrow> int \<Rightarrow> int \<Rightarrow> int \<Rightarrow> int \<Rightarrow> pynum \<Rightarrow> pynum \<Rightarrow> plot_call list" where
  "bresenham_loop 0 i steep dx dy sx sy p x y = []"
| "bresenham_loop (Suc n) i steep dx dy sx sy p x y =
     (if steep then (val y, val x, i, dx) else (val x, val y, i, dx))
       # (if p \<ge> 0
          then bresenham_loop n (i + 1) steep dx dy sx sy (p - 2 * dx + 2 * dy)
                 (py_add x (PyInt sx)) (py_add y (PyInt sy))
          else bresenham_loop n (i + 1) steep dx dy sx sy (p + 2 * dy)
                 (py_add x (PyInt sx)) y)"

definition bresenham_line :: "pynum \<Rightarrow> pynum \<Rightarrow> pynum \<Rightarrow> pynum \<Rightarrow> plot_call list" where
  "bresenham_line x1 y1 x2 y2 =
     (let dx = py_abs (py_sub x2 x1); dy = py_abs (py_sub y2 y1);
          sx = (if py_less x1 x2 then 1 else - 1);
          sy = (if py_less y1 y2 then 1 else - 1);
          steep = py_less dx dy;
          (x1, y1, x2, y2, dx, dy, sx, sy) =
            (if steep
             then let (x1, y1) = (y1, x1); (x2, y2) = (y2, x2)
                  in (x1, y1, x2, y2, py_abs (py_sub x2 x1), py_abs (py_sub y2 y1),
                      (if py_less x1 x2 then 1 else - 1), (if py_less y1 y2 then 1 else - 1))
             else (x1, y1, x2, y2, dx, dy, sx, sy));
          dx = py_trunc dx;
          dy = py_trunc dy;
          p = 2 * dy - dx
      in bresenham_loop (nat (dx + 1)) 0 steep dx dy sx sy p x1 y1)"

section \<open>Drawable objects\<close>

text \<open>
  The parameter dictionary of an object has the keys of its primitive type
  (\<open>x1, y1, x2, y2\<close> for a line, \<open>xc, yc, r\<close> for a circle, \<open>xc, yc, rx, ry\<close>
  for an ellipse). It is a tagged value here, and the tests on \<open>obj["type"]\<close> become
  a match on the tag: an object whose type string disagrees with the keys of its
  parameters is not representable.
\<close>

datatype params =
    LineParams real real real real
  | CircleParams real real real
  | EllipseParams real real real real

text \<open>
  A transformation record, by its \<open>"type"\<close>: \<open>translate\<close> (\<open>dx, dy\<close>),
  \<open>rotate\<close> (\<open>angle, cx, cy\<close>), \<open>scale\<close> (\<open>sx, sy, fx, fy\<close>), \<open>reflect\<close>
  (\<open>axis\<close>, a string) and \<open>reflect_line\<close> (\<open>line_p1, line_p2\<close>).
\<close>

datatype transformation =
    Translate real real
  | Rotate real real real
  | Scale real real real real
  | Reflect string
  | ReflectLine "real \<times> real" "real \<times> real"

datatype error = ZeroDivisionError | IndexError

text \<open>Python's \<open>/\<close> raises on a zero divisor, for floats as for integers.\<close>

definition py_div :: "real \<Rightarrow> real \<Rightarrow> error + real" where
  "py_div a b = (if b = 0 then Inl ZeroDivisionError else Inr (a / b))"

section \<open>Transformation engine\<close>

definition reflect_point_across_line ::
  "real \<Rightarrow> real \<Rightarrow> real \<Rightarrow> real \<Rightarrow> real \<Rightarrow> real \<Rightarrow> error + (real \<times> real)" where
  "reflect_point_across_line px py line_p1x line_p1y line_p2x line_p2y =
     (if line_p1x = line_p2x \<and> line_p1y = line_p2y then Inr (px, py)
      else if line_p1x = line_p2x then
        (let reflected_x = 2 * line_p1x - px; reflected_y = py
         in Inr (reflected_x, reflected_y))
      else if line_p1y = line_p2y then
        (let reflected_x = px; reflected_y = 2 * line_p1y - py
         in Inr (reflected_x, reflected_y))
      else
        (case py_div (line_p2y - line_p1y) (line_p2x - line_p1x) of
           Inl e \<Rightarrow> Inl e
         | Inr m \<Rightarrow>
            (let c = line_p1y - m * line_p1x;
                 denom = 1 + m * m
             in case py_div (px * (1 - m * m) + 2 * m * py - 2 * m * c) denom of
                  Inl e \<Rightarrow> Inl e
                | Inr reflected_x \<Rightarrow>
                   (case py_div (py * (m * m - 1) + 2 * m * px + 2 * c) denom of
                      Inl e \<Rightarrow> Inl e
                    | Inr reflected_y \<Rightarrow> Inr (reflected_x, reflected_y)))))"

text \<open>
  The rotation of one point about \<open>(cx, cy)\<close>, which \<open>apply_transformations\<close> writes
  out three times (for \<open>x1, y1\<close>, for \<open>x2, y2\<close> and for \<open>xc, yc\<close>);
  \<open>math.radians\<close> is the factor \<open>pi / 180\<close>.
\<close>

definition rotate_point :: "real \<Rightarrow> real \<Rightarrow> real \<Rightarrow> real \<Rightarrow> real \<Rightarrow> real \<times> real" where
  "rotate_point px py cx cy angle_rad =
     (let translated_x = px - cx; translated_y = py - cy;
          rotated_x = translated_x * cos angle_rad - translated_y * sin angle_rad;
          rotated_y = translated_x * sin angle_rad + translated_y * cos angle_rad
      in (rotated_x + cx, rotated_y + cy))"

text \<open>The same for the scaling of one endpoint of a line about \<open>(fx, fy)\<close>.\<close>

definition scale_point :: "real \<Rightarrow> real \<Rightarrow> real \<Rightarrow> real \<Rightarrow> real \<Rightarrow> real \<Rightarrow> real \<times> real" where
  "scale_point px py sx sy fx fy =
     (let translated_x = px - fx; translated_y = py - fy;
          scaled_x = translated_x * sx; scaled_y = translated_y * sy
      in (scaled_x + fx, scaled_y + fy))"

text \<open>
  One iteration of the loop \<open>for t in obj["transformations"]\<close>: what the record
  \<open>t\<close> does to the working dictionary \<open>transformed_params\<close>.
\<close>

fun apply_transformation :: "transformation \<Rightarrow> params \<Rightarrow> error + params" where
  "apply_transformation (Translate dx dy) (LineParams x1 y1 x2 y2) =
     Inr (LineParams (x1 + dx) (y1 + dy) (x2 + dx) (y2 + dy))"
| "apply_transformation (Translate dx dy) (CircleParams xc yc r) =
     Inr (CircleParams (xc + dx) (yc + dy) r)"
| "apply_transformation (Translate dx dy) (EllipseParams xc yc rx ry) =
     Inr (EllipseParams (xc + dx) (yc + dy) rx ry)"
| "apply_transformation (Rotate angle cx cy) (LineParams x1 y1 x2 y2) =
     (let angle_rad = angle * pi / 180;
          (x1, y1) = rotate_point x1 y1 cx cy angle_rad;
          (x2, y2) = rotate_point x2 y2 cx cy angle_rad
      in Inr (LineParams x1 y1 x2 y2))"
| "apply_transformation (Rotate angle cx cy) (CircleParams xc yc r) =
     (let angle_rad = angle * pi / 180;
          (xc, yc) = rotate_point xc yc cx cy angle_rad
      in Inr (CircleParams xc yc r))"
| "apply_transformation (Rotate angle cx cy) (EllipseParams xc yc rx ry) =
     (let angle_rad = angle * pi / 180;
          (xc, yc) = rotate_point xc yc cx cy angle_rad
      in Inr (EllipseParams xc yc rx ry))"
| "apply_transformation (Scale sx sy fx fy) (LineParams x1 y1 x2 y2) =
     (let (x1, y1) = scale_point x1 y1 sx sy fx fy;
          (x2, y2) = scale_point x2 y2 sx sy fx fy
      in Inr (LineParams x1 y1 x2 y2))"
| "apply_transformation (Scale sx sy fx fy) (CircleParams xc yc r) =
     Inr (CircleParams xc yc (r * sx))"
| "apply_transformation (Scale sx sy fx fy) (EllipseParams xc yc rx ry) =
     Inr (EllipseParams xc yc (rx * sx) (ry * sy))"
| "apply_transformation (Reflect axis) (LineParams x1 y1 x2 y2) =
     (if axis = ''x'' then Inr (LineParams x1 (- y1) x2 (- y2))
      else if axis = ''y'' then Inr (LineParams (- x1) y1 (- x2) y2)
      else if axis = ''origin'' then Inr (LineParams (- x1) (- y1) (- x2) (- y2))
      else Inr (LineParams x1 y1 x2 y2))"
| "apply_transformation (Reflect axis) (CircleParams xc yc r) =
     (if axis = ''x'' then Inr (CircleParams xc (- yc) r)
      else if axis = ''y'' then Inr (CircleParams (- xc) yc r)
      else if axis = ''origin'' then Inr (CircleParams (- xc) (- yc) r)
      else Inr (CircleParams xc yc r))"
| "apply_transformation (Reflect axis) (EllipseParams xc yc rx ry) =
     (if axis = ''x'' then Inr (EllipseParams xc (- yc) rx ry)
      else if axis = ''y'' then Inr (EllipseParams (- xc) yc rx ry)
      else if axis = ''origin'' then Inr (EllipseParams (- xc) (- yc) rx ry)
      else Inr (EllipseParams xc yc rx ry))"
| "apply_transformation (ReflectLine line_p1 line_p2) (LineParams x1 y1 x2 y2) =
     (case reflect_point_across_line x1 y1 (fst line_p1) (snd line_p1) (fst line_p2) (snd line_p2) of
        Inl e \<Rightarrow> Inl e
      | Inr (rx1, ry1) \<Rightarrow>
         (case reflect_point_across_line x2 y2 (fst line_p1) (snd line_p1) (fst line_p2) (snd line_p2) of
            Inl e \<Rightarrow> Inl e
          | Inr (rx2, ry2) \<Rightarrow> Inr (LineParams rx1 ry1 rx2 ry2)))"
| "apply_transformation (ReflectLine line_p1 line_p2) (CircleParams xc yc r) =
     (case reflect_point_across_line xc yc (fst line_p1) (snd line_p1) (fst line_p2) (snd line_p2) of
        Inl e \<Rightarrow> Inl e
      | Inr (rcx, rcy) \<Rightarrow> Inr (CircleParams rcx rcy r))"
| "apply_transformation (ReflectLine line_p1 line_p2) (EllipseParams xc yc rx ry) =
     (case reflect_point_across_line xc yc (fst line_p1) (snd line_p1) (fst line_p2) (snd line_p2) of
        Inl e \<Rightarrow> Inl e
      | Inr (rcx, rcy) \<Rightarrow> Inr (EllipseParams rcx rcy rx ry))"

text \<open>
  Parameter dictionaries are mutable and shared by reference: an object holds a
  reference to its base parameters, and \<open>apply_transformations\<close> works on
  \<open>obj["params"].copy()\<close>, a new dictionary that it updates in place. The store of
  dictionaries is a list, an address is an index into it, and a new dictionary is
  appended at the end.
\<close>

type_synonym addr = nat
type_synonym heap = "params list"

record gobject =
  obj_id :: int
  obj_algorithm :: string
  obj_params :: addr
  obj_color :: "real \<times> real \<times> real"
  obj_style :: int
  obj_thickness :: int
  obj_mask :: int
  obj_transformations :: "transformation list"

text \<open>
  The loop of \<open>apply_transformations\<close> over the records, writing each result into
  the dictionary at \<open>transformed_params\<close>. An exception leaves the loop with the
  store as it is at that moment.
\<close>

fun transform_loop :: "addr \<Rightarrow> transformation list \<Rightarrow> heap \<Rightarrow> error option \<times> heap" where
  "transform_loop transformed_params [] h = (None, h)"
| "transform_loop transformed_params (t # ts) h =
     (case apply_transformation t (h ! transformed_params) of
        Inl e \<Rightarrow> (Some e, h)
      | Inr p \<Rightarrow> transform_loop transformed_params ts (h[transformed_params := p]))"

definition apply_transformations :: "heap \<Rightarrow> gobject \<Rightarrow> (error + addr) \<times> heap" where
  "apply_transformations h obj =
     (let transformed_params = length h;
          h = h @ [h ! obj_params obj]
      in case transform_loop transformed_params (obj_transformations obj) h of
           (Some e, h) \<Rightarrow> (Inl e, h)
         | (None, h) \<Rightarrow> (Inr transformed_params, h))"

text \<open>
  The callers that only read the result (\<open>paintGL\<close>, the hit test) drop their
  reference to the copy when they return; for them the value of the effective
  parameters is all that remains.
\<close>

definition effective_params :: "heap \<Rightarrow> gobject \<Rightarrow> error + params" where
  "effective_params h obj =
     (case apply_transformations h obj of
        (Inl e, h') \<Rightarrow> Inl e
      | (Inr a, h') \<Rightarrow> Inr (h' ! a))"

text \<open>
  The value that the loop leaves in the working dictionary, as a function of the value
  it starts from.
\<close>

fun transform_params :: "transformation list \<Rightarrow> params \<Rightarrow> error + params" where
  "transform_params [] p = Inr p"
| "transform_params (t # ts) p =
     (case apply_transformation t p of
        Inl e \<Rightarrow> Inl e
      | Inr p' \<Rightarrow> transform_params ts p')"

section \<open>Thick rendering\<close>

text \<open>
  \<open>draw_thick_object\<close> draws a thick line as one filled quadrilateral and a thick
  circle or ellipse as concentric solid shapes, each by a call of \<open>draw_circle\<close> or
  \<open>draw_ellipse\<close>. The model returns the drawing calls in order: the quadrilateral
  by its four vertices in logical coordinates (each is then mapped by
  \<open>logical_to_screen\<close>), a shape by its centre and the integer radii passed on.
\<close>

datatype draw_call =
    DrawQuad "real \<times> real" "real \<times> real" "real \<times> real" "real \<times> real"
  | DrawCircle real real int
  | DrawEllipse real real int int

text \<open>The body of \<open>for i in range(thickness)\<close> for a circle, from index \<open>i\<close> on.\<close>

fun thick_circle_loop :: "nat \<Rightarrow> int \<Rightarrow> real \<Rightarrow> real \<Rightarrow> real \<Rightarrow> int \<Rightarrow> draw_call list" where
  "thick_circle_loop 0 i xc yc r thickness = []"
| "thick_circle_loop (Suc n) i xc yc r thickness =
     (let offset_r = r + (of_int i - (of_int thickness - 1) / 2)
      in (if offset_r \<ge> 1 then [DrawCircle xc yc (py_int offset_r)] else [])
         @ thick_circle_loop n (i + 1) xc yc r thickness)"

fun thick_ellipse_loop ::
  "nat \<Rightarrow> int \<Rightarrow> real \<Rightarrow> real \<Rightarrow> real \<Rightarrow> real \<Rightarrow> int \<Rightarrow> draw_call list" where
  "thick_ellipse_loop 0 i xc yc rx ry thickness = []"
| "thick_ellipse_loop (Suc n) i xc yc rx ry thickness =
     (let offset_rx = rx + (of_int i - (of_int thickness - 1) / 2);
          offset_ry = ry + (of_int i - (of_int thickness - 1) / 2)
      in (if offset_rx \<ge> 1 \<and> offset_ry \<ge> 1
          then [DrawEllipse xc yc (py_int offset_rx) (py_int offset_ry)] else [])
         @ thick_ellipse_loop n (i + 1) xc yc rx ry thickness)"

fun draw_thick_object :: "params \<Rightarrow> int \<Rightarrow> draw_call list" where
  "draw_thick_object (LineParams x1 y1 x2 y2) thickness =
     (let line_vec_x = x2 - x1; line_vec_y = y2 - y1;
          perp_vec_x = - line_vec_y; perp_vec_y = line_vec_x;
          length = sqrt (perp_vec_x ^ 2 + perp_vec_y ^ 2);
          (norm_perp_x, norm_perp_y) =
            (if length = 0 then (0, 0) else (perp_vec_x / length, perp_vec_y / length));
          half_thickness = of_int thickness / 2;
          scaled_perp_x = norm_perp_x * half_thickness;
          scaled_perp_y = norm_perp_y * half_thickness
      in [DrawQuad (x1 - scaled_perp_x, y1 - scaled_perp_y)
                   (x1 + scaled_perp_x, y1 + scaled_perp_y)
                   (x2 + scaled_perp_x, y2 + scaled_perp_y)
                   (x2 - scaled_perp_x, y2 - scaled_perp_y)])"
| "draw_thick_object (CircleParams xc yc r) thickness =
     thick_circle_loop (nat thickness) 0 xc yc r thickness"
| "draw_thick_object (EllipseParams xc yc rx ry) thickness =
     thick_ellipse_loop (nat thickness) 0 xc yc rx ry thickness"

section \<open>Hit testing\<close>

text \<open>
  The hit distance of an object starts as \<open>float('inf')\<close> and stays so when the
  object is not hit; \<open>None\<close> stands for it. \<open>inf_less\<close> is \<open><\<close> on such values.
\<close>

fun inf_less :: "real option \<Rightarrow> real option \<Rightarrow> bool" where
  "inf_less None m = False"
| "inf_less (Some d) None = True"
| "inf_less (Some d) (Some m) = (d < m)"

definition base_selection_pixel_tolerance :: real where
  "base_selection_pixel_tolerance = 10"

text \<open>The distance from the click to the line segment, as the line branch computes it.\<close>

definition dist_to_line_segment_center ::
  "real \<Rightarrow> real \<Rightarrow> real \<Rightarrow> real \<Rightarrow> real \<Rightarrow> real \<Rightarrow> real" where
  "dist_to_line_segment_center logical_x logical_y x1 y1 x2 y2 =
     (let line_dx = x2 - x1; line_dy = y2 - y1;
          point_dx = logical_x - x1; point_dy = logical_y - y1;
          dot_product = point_dx * line_dx + point_dy * line_dy;
          length_sq = line_dx ^ 2 + line_dy ^ 2
      in if length_sq = 0 then sqrt (point_dx ^ 2 + point_dy ^ 2)
         else let t = max 0 (min 1 (dot_product / length_sq));
                  closest_x_on_segment = x1 + t * line_dx;
                  closest_y_on_segment = y1 + t * line_dy
              in sqrt ((logical_x - closest_x_on_segment) ^ 2
                       + (logical_y - closest_y_on_segment) ^ 2))"

text \<open>
  \<open>current_obj_hit_distance\<close> of one object, from its effective parameters and its
  thickness.
\<close>

fun hit_distance :: "real \<Rightarrow> real \<Rightarrow> params \<Rightarrow> int \<Rightarrow> real option" where
  "hit_distance logical_x logical_y (LineParams x1 y1 x2 y2) current_obj_thickness =
     (let half_nominal_thickness = (of_int current_obj_thickness - 1) / 2;
          d = dist_to_line_segment_center logical_x logical_y x1 y1 x2 y2
      in if d \<le> half_nominal_thickness + base_selection_pixel_tolerance
         then Some \<bar>d - half_nominal_thickness\<bar> else None)"
| "hit_distance logical_x logical_y (CircleParams center_x center_y base_radius) current_obj_thickness =
     (let half_nominal_thickness = (of_int current_obj_thickness - 1) / 2;
          dist_to_center = sqrt ((logical_x - center_x) ^ 2 + (logical_y - center_y) ^ 2);
          outer_radius_visual = base_radius + half_nominal_thickness
      in if dist_to_center \<le> outer_radius_visual + base_selection_pixel_tolerance
         then Some \<bar>dist_to_center - outer_radius_visual\<bar> else None)"
| "hit_distance logical_x logical_y (EllipseParams center_x center_y base_rx base_ry) current_obj_thickness =
     (let half_nominal_thickness = (of_int current_obj_thickness - 1) / 2;
          outer_rx_visual = base_rx + half_nominal_thickness;
          outer_ry_visual = base_ry + half_nominal_thickness
      in if outer_rx_visual > 0 \<and> outer_ry_visual > 0
         then let normalized_x = (logical_x - center_x) / (outer_rx_visual + base_selection_pixel_tolerance);
                  normalized_y = (logical_y - center_y) / (outer_ry_visual + base_selection_pixel_tolerance);
                  ellipse_value_for_hitbox = normalized_x ^ 2 + normalized_y ^ 2
              in if ellipse_value_for_hitbox \<le> 1
                 then Some (sqrt ((logical_x - center_x) ^ 2 + (logical_y - center_y) ^ 2)
                            / max 1 (max outer_rx_visual outer_ry_visual))
                 else None
         else let dist_to_center = sqrt ((logical_x - center_x) ^ 2 + (logical_y - center_y) ^ 2)
              in if dist_to_center \<le> base_selection_pixel_tolerance then Some 0 else None)"

text \<open>
  The loop \<open>for obj in objects_to_draw\<close> of the selection branch, carrying
  \<open>min_effective_distance\<close> and \<open>closest_obj_id\<close>.
\<close>

fun select_loop ::
  "real \<Rightarrow> real \<Rightarrow> heap \<Rightarrow> gobject list \<Rightarrow> real option \<Rightarrow> int \<Rightarrow> error + (real option \<times> int)" where
  "select_loop logical_x logical_y h [] min_effective_distance closest_obj_id =
     Inr (min_effective_distance, closest_obj_id)"
| "select_loop logical_x logical_y h (obj # objs) min_effective_distance closest_obj_id =
     (case effective_params h obj of
        Inl e \<Rightarrow> Inl e
      | Inr p \<Rightarrow>
         (let current_obj_hit_distance = hit_distance logical_x logical_y p (obj_thickness obj)
          in if inf_less current_obj_hit_distance min_effective_distance
             then select_loop logical_x logical_y h objs current_obj_hit_distance (obj_id obj)
             else select_loop logical_x logical_y h objs min_effective_distance closest_obj_id))"

section \<open>Editor state and interactions\<close>

datatype mode =
    MODE_IDLE
  | MODE_DRAWING_LINE_P1
  | MODE_DRAWING_LINE_P2
  | MODE_DRAWING_CIRCLE_CENTER
  | MODE_DRAWING_CIRCLE_RADIUS
  | MODE_DRAWING_ELLIPSE_CENTER
  | MODE_DRAWING_ELLIPSE_RX_POINT
  | MODE_DRAWING_ELLIPSE_RY_POINT
  | MODE_SELECTING_OBJECT
  | MODE_APPLY_TRANSLATE
  | MODE_APPLY_ROTATE
  | MODE_APPLY_SCALE
  | MODE_APPLY_REFLECT
  | MODE_APPLY_REFLECT_LINE_P1
  | MODE_APPLY_REFLECT_LINE_P2

text \<open>
  The module globals, with the store of parameter dictionaries. \<open>current_algo_func\<close>
  holds the name of the selected drawing function, or \<open>None\<close>.
\<close>

record editor =
  heap :: heap
  MID_X :: int
  MID_Y :: int
  objects_to_draw :: "gobject list"
  current_mode :: mode
  current_algo_func :: "string option"
  current_style_choice :: int
  current_thickness :: int
  current_mask :: int
  current_color :: "real \<times> real \<times> real"
  temp_points :: "(int \<times> int) list"
  selected_object_id :: int
  next_object_id :: int

definition GRID_SPACING :: int where
  "GRID_SPACING = 20"

text \<open>\<open>xs[i]\<close> for a non-negative index, raising \<open>IndexError\<close> out of range.\<close>

definition py_index :: "'a list \<Rightarrow> nat \<Rightarrow> error + 'a" where
  "py_index xs i = (if i < length xs then Inr (xs ! i) else Inl IndexError)"

text \<open>
  \<open>next((obj for obj in objects_to_draw if obj["id"] == i), None)\<close> is
  \<open>find\<close>; a write through the reference it returns updates that first match in
  the list.
\<close>

fun update_first :: "int \<Rightarrow> (gobject \<Rightarrow> gobject) \<Rightarrow> gobject list \<Rightarrow> gobject list" where
  "update_first i f [] = []"
| "update_first i f (obj # objs) =
     (if obj_id obj = i then f obj # objs else obj # update_first i f objs)"

text \<open>
  \<open>objects_to_draw.append({..})\<close> with a new parameter dictionary, followed by
  \<open>next_object_id += 1\<close>, \<open>temp_points = []\<close> and \<open>current_mode = MODE_IDLE\<close>, as
  the three drawing branches do. (\<open>save_objects_to_file\<close> writes the file and
  changes no global.)
\<close>

definition append_object :: "string \<Rightarrow> params \<Rightarrow> editor \<Rightarrow> editor" where
  "append_object algorithm p s =
     s\<lparr>heap := heap s @ [p],
       objects_to_draw := objects_to_draw s @
         [\<lparr>obj_id = next_object_id s, obj_algorithm = algorithm,
           obj_params = length (heap s), obj_color = current_color s,
           obj_style = current_style_choice s, obj_thickness = current_thickness s,
           obj_mask = current_mask s, obj_transformations = []\<rparr>],
       next_object_id := next_object_id s + 1,
       temp_points := [],
       current_mode := MODE_IDLE\<rparr>"

text \<open>
  The branches of \<open>mousePressEvent\<close> on \<open>current_mode\<close>, after the click has been
  snapped and converted to the logical point \<open>(logical_x, logical_y)\<close>.
\<close>

definition click_branches :: "int \<Rightarrow> int \<Rightarrow> editor \<Rightarrow> error + editor" where
  "click_branches logical_x logical_y s =
     (if current_mode s = MODE_DRAWING_LINE_P1 then
        Inr (s\<lparr>temp_points := temp_points s @ [(logical_x, logical_y)],
               current_mode := MODE_DRAWING_LINE_P2\<rparr>)
      else if current_mode s = MODE_DRAWING_LINE_P2 then
        (let tp = temp_points s @ [(logical_x, logical_y)]
         in case py_index tp 0 of Inl e \<Rightarrow> Inl e | Inr (x1, y1) \<Rightarrow>
            (case py_index tp 1 of Inl e \<Rightarrow> Inl e | Inr (x2, y2) \<Rightarrow>
               Inr (append_object
                      (if current_algo_func s \<in> {Some ''dda_line'', Some ''bresenham_line'',
                                                  Some ''symmetrical_dda_line''}
                       then the (current_algo_func s) else ''unknown_line_algo'')
                      (LineParams (of_int x1) (of_int y1) (of_int x2) (of_int y2)) s)))
      else if current_mode s = MODE_DRAWING_CIRCLE_CENTER then
        Inr (s\<lparr>temp_points := temp_points s @ [(logical_x, logical_y)],
               current_mode := MODE_DRAWING_CIRCLE_RADIUS\<rparr>)
      else if current_mode s = MODE_DRAWING_CIRCLE_RADIUS then
        (let tp = temp_points s @ [(logical_x, logical_y)]
         in case py_index tp 0 of Inl e \<Rightarrow> Inl e | Inr (cx, cy) \<Rightarrow>
            (let (rx_point, ry_point) = (logical_x, logical_y);
                 r = py_int (sqrt (of_int ((rx_point - cx) ^ 2 + (ry_point - cy) ^ 2)));
                 r = (if r = 0 then 1 else r)
             in Inr (append_object ''draw_circle''
                       (CircleParams (of_int cx) (of_int cy) (of_int r)) s)))
      else if current_mode s = MODE_DRAWING_ELLIPSE_CENTER then
        Inr (s\<lparr>temp_points := temp_points s @ [(logical_x, logical_y)],
               current_mode := MODE_DRAWING_ELLIPSE_RX_POINT\<rparr>)
      else if current_mode s = MODE_DRAWING_ELLIPSE_RX_POINT then
        (let tp = temp_points s @ [(logical_x, logical_y)]
         in case py_index tp 0 of Inl e \<Rightarrow> Inl e | Inr (cx, cy) \<Rightarrow>
            Inr (s\<lparr>temp_points := tp, current_mode := MODE_DRAWING_ELLIPSE_RY_POINT\<rparr>))
      else if current_mode s = MODE_DRAWING_ELLIPSE_RY_POINT then
        (let tp = temp_points s @ [(logical_x, logical_y)]
         in case py_index tp 0 of Inl e \<Rightarrow> Inl e | Inr (cx, cy) \<Rightarrow>
            (case py_index tp 1 of Inl e \<Rightarrow> Inl e | Inr (rx_point_x, rx_point_y) \<Rightarrow>
               (let (ry_point_x, ry_point_y) = (logical_x, logical_y);
                    rx_val = \<bar>rx_point_x - cx\<bar>;
                    ry = \<bar>ry_point_y - cy\<bar>;
                    rx_val = (if rx_val = 0 then 1 else rx_val);
                    ry = (if ry = 0 then 1 else ry)
                in Inr (append_object ''draw_ellipse''
                          (EllipseParams (of_int cx) (of_int cy) (of_int rx_val) (of_int ry)) s))))
      else if current_mode s = MODE_SELECTING_OBJECT then
        (case select_loop (of_int logical_x) (of_int logical_y) (heap s) (objects_to_draw s) None (- 1) of
           Inl e \<Rightarrow> Inl e
         | Inr (min_effective_distance, closest_obj_id) \<Rightarrow>
             Inr (s\<lparr>selected_object_id := (if closest_obj_id \<noteq> - 1 then closest_obj_id else - 1),
                    current_mode := MODE_IDLE\<rparr>))
      else if selected_object_id s \<noteq> - 1 \<and> current_mode s = MODE_APPLY_TRANSLATE then
        (case find (\<lambda>obj. obj_id obj = selected_object_id s) (objects_to_draw s) of
           Some obj_to_transform \<Rightarrow>
             (if temp_points s = [] then
                Inr (s\<lparr>temp_points := temp_points s @ [(logical_x, logical_y)]\<rparr>)
              else case py_index (temp_points s) 0 of Inl e \<Rightarrow> Inl e | Inr (start_x, start_y) \<Rightarrow>
                (let dx = logical_x - start_x; dy = logical_y - start_y
                 in Inr (s\<lparr>objects_to_draw :=
                            update_first (selected_object_id s)
                              (\<lambda>obj. obj\<lparr>obj_transformations :=
                                 obj_transformations obj @ [Translate (of_int dx) (of_int dy)]\<rparr>)
                              (objects_to_draw s),
                          temp_points := [],
                          selected_object_id := - 1,
                          current_mode := MODE_IDLE\<rparr>)))
         | None \<Rightarrow> Inr (s\<lparr>selected_object_id := - 1, current_mode := MODE_IDLE\<rparr>))
      else if selected_object_id s \<noteq> - 1 \<and> current_mode s = MODE_APPLY_REFLECT_LINE_P1 then
        Inr (s\<lparr>temp_points := temp_points s @ [(logical_x, logical_y)],
               current_mode := MODE_APPLY_REFLECT_LINE_P2\<rparr>)
      else if selected_object_id s \<noteq> - 1 \<and> current_mode s = MODE_APPLY_REFLECT_LINE_P2 then
        (case find (\<lambda>obj. obj_id obj = selected_object_id s) (objects_to_draw s) of
           Some obj_to_transform \<Rightarrow>
             (let tp = temp_points s @ [(logical_x, logical_y)]
              in case py_index tp 0 of Inl e \<Rightarrow> Inl e | Inr (line_p1x, line_p1y) \<Rightarrow>
                 (case py_index tp 1 of Inl e \<Rightarrow> Inl e | Inr (line_p2x, line_p2y) \<Rightarrow>
                    Inr (s\<lparr>objects_to_draw :=
                            update_first (selected_object_id s)
                              (\<lambda>obj. obj\<lparr>obj_transformations :=
                                 obj_transformations obj @
                                   [ReflectLine (of_int line_p1x, of_int line_p1y)
                                                (of_int line_p2x, of_int line_p2y)]\<rparr>)
                              (objects_to_draw s),
                          temp_points := [],
                          selected_object_id := - 1,
                          current_mode := MODE_IDLE\<rparr>)))
         | None \<Rightarrow> Inr (s\<lparr>selected_object_id := - 1, current_mode := MODE_IDLE\<rparr>))
      else Inr s)"

definition mousePressEvent :: "bool \<Rightarrow> bool \<Rightarrow> int \<Rightarrow> int \<Rightarrow> editor \<Rightarrow> error + editor" where
  "mousePressEvent input_dialog_active left_button x_raw_screen y_raw_screen s =
     (if input_dialog_active then Inr s
      else if left_button then
        (let snapped_x_screen = py_round (of_int x_raw_screen / of_int GRID_SPACING) * GRID_SPACING;
             snapped_y_screen = py_round (of_int y_raw_screen / of_int GRID_SPACING) * GRID_SPACING;
             (logical_x, logical_y) =
               screen_to_logical (MID_X s) (MID_Y s) snapped_x_screen snapped_y_screen
         in if current_algo_func s = None
               \<and> current_mode s \<notin> {MODE_SELECTING_OBJECT, MODE_APPLY_TRANSLATE,
                                     MODE_APPLY_REFLECT_LINE_P1, MODE_APPLY_REFLECT_LINE_P2}
            then Inr (s\<lparr>current_mode := MODE_IDLE\<rparr>)
            else click_branches logical_x logical_y s)
      else Inr s)"



section \<open>Persistence\<close>





section \<open>Well-formed base radii\<close>

text \<open>A real that is an integer and at least 1, and the radii of a parameter dictionary.\<close>

definition is_positive_int :: "real \<Rightarrow> bool" where
  "is_positive_int x = (of_int \<lfloor>x\<rfloor> = x \<and> 1 \<le> x)"

fun base_radii_ok :: "params \<Rightarrow> bool" where
  "base_radii_ok (LineParams x1 y1 x2 y2) = True"
| "base_radii_ok (CircleParams xc yc r) = is_positive_int r"
| "base_radii_ok (EllipseParams xc yc rx ry) = (is_positive_int rx \<and> is_positive_int ry)"

section \<open>Example states\<close>

text \<open>
  A store with a circle of radius 5 at the origin, translated by \<open>(1, 2)\<close> and then
  scaled by \<open>(2, 3)\<close>, and a line of thickness 3 from \<open>(0,0)\<close> to \<open>(10,0)\<close>; the
  circle is selected and the circle tool is waiting for a centre.
\<close>

definition example_circle :: gobject where
  "example_circle =
     \<lparr>obj_id = 0, obj_algorithm = ''draw_circle'', obj_params = 0, obj_color = (0, 0, 1),
      obj_style = 1, obj_thickness = 1, obj_mask = 0,
      obj_transformations = [Translate 1 2, Scale 2 3 0 0]\<rparr>"

definition example_line :: gobject where
  "example_line =
     \<lparr>obj_id = 1, obj_algorithm = ''dda_line'', obj_params = 1, obj_color = (0, 0, 1),
      obj_style = 3, obj_thickness = 3, obj_mask = 0, obj_transformations = []\<rparr>"

definition example_editor :: editor where
  "example_editor =
     \<lparr>heap = [CircleParams 0 0 5, LineParams 0 0 10 0],
      MID_X = 500, MID_Y = 350,
      objects_to_draw = [example_circle, example_line],
      current_mode = MODE_DRAWING_CIRCLE_CENTER,
      current_algo_func = Some ''draw_circle'',
      current_style_choice = 1, current_thickness = 1, current_mask = 0,
      current_color = (0, 0, 1),
      temp_points = [],
      selected_object_id = 0,
      next_object_id = 2\<rparr>"

text \<open>The same store with the circle tool waiting for the radius point.\<close>

definition example_radius_pending :: editor where
  "example_radius_pending =
     example_editor\<lparr>current_mode := MODE_DRAWING_CIRCLE_RADIUS, temp_points := [(0, - 10)]\<rparr>"



section \<open>Sessions\<close>







text \<open>
  An object \<open>obj'\<close> of a later state keeps the base of an object of \<open>s\<close>: it has the
  id and the reference to the base parameters of an object of \<open>s\<close>, and a
  transformation list that starts with the list of that object; or it is new, with a
  dictionary that \<open>s\<close> did not have and no transformations.
\<close>

definition base_kept :: "editor \<Rightarrow> gobject \<Rightarrow> bool" where
  "base_kept s obj' =
     ((\<exists>obj \<in> set (objects_to_draw s).
         obj_id obj' = obj_id obj \<and> obj_params obj' = obj_params obj
         \<and> take (length (obj_transformations obj)) (obj_transformations obj')
             = obj_transformations obj)
      \<or> (length (heap s) \<le> obj_params obj' \<and> obj_transformations obj' = []))"

section \<open>Distance to a segment, as specified\<close>




section \<open>Coordinate round trip\<close>

text \<open>
  C3. For every integer logical point and any canvas midpoints, mapping to screen
  coordinates and back returns the point: the two mappings are exact inverses.
\<close>

theorem screen_logical_roundtrip:
  "(case logical_to_screen mid_x mid_y x y of
      (sx, sy) \<Rightarrow> screen_to_logical mid_x mid_y sx sy) = (x, y)"
  by (simp add: logical_to_screen_def screen_to_logical_def)

section \<open>Rounding to a double\<close>

lemma py_round_of_int: "py_round (of_int z) = z"
  by (simp add: py_round_def)

lemma py_int_of_int: "py_int (of_int z) = z"
  by (simp add: py_int_def)

lemma py_round_error: "\<bar>of_int (py_round z) - z\<bar> \<le> 1 / 2"
  unfolding py_round_def Let_def by (auto simp: abs_if) linarith+

lemma py_round_near: "\<bar>z - of_int b\<bar> < 1 / 2 \<Longrightarrow> py_round z = b"
proof -
  assume a: "\<bar>z - of_int b\<bar> < 1 / 2"
  have "\<bar>of_int (py_round z) - z\<bar> \<le> 1 / 2" by (rule py_round_error)
  with a have "\<bar>real_of_int (py_round z) - of_int b\<bar> < 1" by linarith
  then have "\<bar>real_of_int (py_round z - b)\<bar> < 1" by simp
  then have "\<bar>py_round z - b\<bar> < 1" by linarith
  then show ?thesis by simp
qed

lemma floor_log2_bounds:
  assumes "x \<noteq> 0"
  shows "2 powr of_int \<lfloor>log 2 \<bar>x\<bar>\<rfloor> \<le> \<bar>x\<bar>" and "\<bar>x\<bar> < 2 powr (of_int \<lfloor>log 2 \<bar>x\<bar>\<rfloor> + 1)"
  using floor_log_eq_powr_iff[of "\<bar>x\<bar>" 2 "\<lfloor>log 2 \<bar>x\<bar>\<rfloor>"] assms by simp_all

lemma fl_error: "\<bar>fl x - x\<bar> \<le> \<bar>x\<bar> / 2 ^ 53"
proof (cases "x = 0")
  case True
  then show ?thesis by (simp add: fl_def)
next
  case False
  define e where "e = \<lfloor>log 2 \<bar>x\<bar>\<rfloor> - 52"
  define p :: real where "p = 2 powr of_int e"
  have ppos: "0 < p" by (simp add: p_def)
  have f: "fl x = of_int (py_round (x / p)) * p"
    using False by (simp add: fl_def Let_def e_def p_def)
  have "\<bar>fl x - x\<bar> = \<bar>of_int (py_round (x / p)) - x / p\<bar> * p"
  proof -
    have "fl x - x = (of_int (py_round (x / p)) - x / p) * p"
      using ppos by (simp add: f field_simps)
    then show ?thesis using ppos by (simp add: abs_mult)
  qed
  also have "\<dots> \<le> (1 / 2) * p"
    using py_round_error[of "x / p"] ppos by (intro mult_right_mono) simp_all
  also have "p = (2::real) powr of_int \<lfloor>log 2 \<bar>x\<bar>\<rfloor> / 2 ^ 52"
  proof -
    have "p = 2 powr (of_int \<lfloor>log 2 \<bar>x\<bar>\<rfloor> - 52)" by (simp add: p_def e_def)
    also have "\<dots> = 2 powr of_int \<lfloor>log 2 \<bar>x\<bar>\<rfloor> / 2 powr 52" by (simp add: powr_diff)
    also have "(2::real) powr 52 = 2 ^ 52" by (simp add: powr_numeral)
    finally show ?thesis .
  qed
  also have "(1 / 2) * ((2::real) powr of_int \<lfloor>log 2 \<bar>x\<bar>\<rfloor> / 2 ^ 52) = 2 powr of_int \<lfloor>log 2 \<bar>x\<bar>\<rfloor> / 2 ^ 53"
    by simp
  also have "\<dots> \<le> \<bar>x\<bar> / 2 ^ 53"
    using floor_log2_bounds(1)[OF False] by (simp add: divide_right_mono)
  finally show ?thesis .
qed

lemma fl_eval:
  assumes "2 powr of_int n \<le> \<bar>x\<bar>" and "\<bar>x\<bar> < 2 powr (of_int n + 1)"
  shows "fl x = of_int (py_round (x / 2 powr of_int (n - 52))) * 2 powr of_int (n - 52)"
proof -
  have "0 < (2::real) powr of_int n" by simp
  with assms(1) have nz: "x \<noteq> 0" by auto
  then have "\<lfloor>log 2 \<bar>x\<bar>\<rfloor> = n"
    using floor_log_eq_powr_iff[of "\<bar>x\<bar>" 2 n] assms by simp
  with nz show ?thesis by (simp add: fl_def Let_def)
qed

lemma fl_exact:
  assumes "\<bar>m\<bar> \<le> 2 ^ 53"
  shows "fl (of_int m * 2 powr of_int j) = of_int m * 2 powr of_int j"
proof (cases "m = 0")
  case True
  then show ?thesis by (simp add: fl_def)
next
  case False
  define x :: real where "x = of_int m * 2 powr of_int j"
  define L where "L = \<lfloor>log 2 \<bar>real_of_int m\<bar>\<rfloor>"
  have mnz: "real_of_int m \<noteq> 0" using False by simp
  have lo: "2 powr of_int L \<le> \<bar>real_of_int m\<bar>"
    and hi: "\<bar>real_of_int m\<bar> < 2 powr (of_int L + 1)"
    unfolding L_def using floor_log2_bounds[OF mnz] by simp_all
  have absx: "\<bar>x\<bar> = \<bar>real_of_int m\<bar> * 2 powr of_int j"
    by (simp add: x_def abs_mult)
  have xlo: "2 powr of_int (L + j) \<le> \<bar>x\<bar>"
    using lo by (simp add: absx powr_add)
  have xhi: "\<bar>x\<bar> < 2 powr (of_int (L + j) + 1)"
  proof -
    have "\<bar>x\<bar> < 2 powr (of_int L + 1) * 2 powr of_int j"
      using hi by (simp add: absx)
    also have "\<dots> = 2 powr (of_int (L + j) + 1)"
      by (simp add: powr_add[symmetric] algebra_simps)
    finally show ?thesis .
  qed
  define p :: real where "p = 2 powr of_int (L + j - 52)"
  have ppos: "0 < p" by (simp add: p_def)
  have f: "fl x = of_int (py_round (x / p)) * p"
    unfolding p_def by (rule fl_eval[OF xlo xhi])
  have q: "x / p = of_int m * 2 powr (52 - of_int L)"
  proof -
    have "x / p = of_int m * (2 powr of_int j / 2 powr of_int (L + j - 52))"
      by (simp add: x_def p_def)
    also have "2 powr of_int j / 2 powr of_int (L + j - 52) = (2::real) powr (52 - of_int L)"
      by (simp add: powr_diff[symmetric])
    finally show ?thesis .
  qed
  have "real_of_int \<bar>m\<bar> \<le> 2 ^ 53" using assms by (metis of_int_le_iff of_int_numeral of_int_power)
  then have m53: "\<bar>real_of_int m\<bar> \<le> 2 powr 53" by (simp add: powr_numeral)
  have "\<exists>N. x / p = of_int N"
  proof (cases "L \<le> 52")
    case True
    then have "(2::real) powr (52 - of_int L) = 2 ^ nat (52 - L)"
      by (metis of_int_diff of_int_numeral of_nat_nat diff_ge_0_iff_ge powr_realpow zero_less_numeral)
    then have "x / p = of_int (m * 2 ^ nat (52 - L))" by (simp add: q)
    then show ?thesis by blast
  next
    case False
    have L53: "L = 53"
    proof (rule ccontr)
      assume "L \<noteq> 53"
      with False have "54 \<le> L" by simp
      then have "(2::real) powr of_int 54 \<le> 2 powr of_int L"
        by (intro powr_mono) simp_all
      with lo m53 show False by (simp add: powr_numeral)
    qed
    have xq: "x / p = of_int m / 2"
      by (simp add: q L53 powr_minus field_simps)
    from lo m53 have "\<bar>real_of_int m\<bar> = 2 ^ 53"
      by (simp add: L53 powr_numeral)
    then have "real_of_int \<bar>m\<bar> = real_of_int (2 ^ 53)" by simp
    then have "\<bar>m\<bar> = 2 ^ 53" by (simp only: of_int_eq_iff)
    then have "\<bar>m\<bar> = 9007199254740992" by simp
    then have "m = 2 * (m div 2)" by presburger
    then have "real_of_int m = 2 * real_of_int (m div 2)"
      by (metis of_int_mult of_int_numeral)
    with xq have "x / p = of_int (m div 2)" by simp
    then show ?thesis by blast
  qed
  then obtain N where N: "x / p = of_int N" by blast
  then have "fl x = of_int N * p" by (simp add: f py_round_of_int)
  also have "\<dots> = x" using N ppos by (simp add: field_simps)
  finally show ?thesis by (simp add: x_def)
qed

lemma fl_of_int: "\<bar>k\<bar> \<le> 2 ^ 53 \<Longrightarrow> fl (of_int k) = of_int k"
  using fl_exact[of k 0] by simp

section \<open>Bresenham: the decision variable\<close>

lemma bresenham_loop_last:
  assumes "0 \<le> dy" "dy \<le> dx" "0 < dx"
    and "p = 2 * dy * (k + 1) - dx * (2 * c + 1)"
    and "2 * dy - 2 * dx \<le> p" "p < 2 * dy"
    and "k + int n = dx"
  shows "last (bresenham_loop (Suc n) i steep dx dy sx sy p (PyInt x) (PyInt y)) =
     (if steep then (of_int (y + (dy - c) * sy), of_int (x + int n * sx), i + int n, dx)
      else (of_int (x + int n * sx), of_int (y + (dy - c) * sy), i + int n, dx))"
  using assms
proof (induction n arbitrary: i p x y k c)
  case 0
  have a: "dx * (2 * (dy - c) - 1) < 0" and b: "dx * (- 2) \<le> dx * (2 * (dy - c) - 1)"
    using 0 by (simp_all add: algebra_simps)
  have "2 * (dy - c) - 1 < 0"
    using a \<open>0 < dx\<close> by (auto simp: mult_less_0_iff)
  moreover have "- 2 \<le> 2 * (dy - c) - 1"
    using b \<open>0 < dx\<close> by (simp only: mult_le_cancel_left_pos)
  ultimately have "dy - c = 0" by arith
  then show ?case by simp
next
  case (Suc n)
  show ?case
  proof (cases "0 \<le> p")
    case True
    have "last (bresenham_loop (Suc n) (i + 1) steep dx dy sx sy (p - 2 * dx + 2 * dy)
              (PyInt (x + sx)) (PyInt (y + sy)))
       = (if steep then (of_int (y + sy + (dy - (c + 1)) * sy), of_int (x + sx + int n * sx), i + 1 + int n, dx)
      else (of_int (x + sx + int n * sx), of_int (y + sy + (dy - (c + 1)) * sy), i + 1 + int n, dx))"
      apply (rule Suc.IH[where k="k + 1"])
      using Suc.prems True by (simp_all add: algebra_simps)
    with True show ?thesis by (simp add: algebra_simps)
  next
    case False
    have "last (bresenham_loop (Suc n) (i + 1) steep dx dy sx sy (p + 2 * dy)
              (PyInt (x + sx)) (PyInt y))
       = (if steep then (of_int (y + (dy - c) * sy), of_int (x + sx + int n * sx), i + 1 + int n, dx)
      else (of_int (x + sx + int n * sx), of_int (y + (dy - c) * sy), i + 1 + int n, dx))"
      apply (rule Suc.IH[where k="k + 1"])
      using Suc.prems False by (simp_all add: algebra_simps)
    with False show ?thesis by (simp add: algebra_simps)
  qed
qed

lemma bresenham_core_last:
  fixes u1 v1 u2 v2 :: int
  assumes "\<bar>v2 - v1\<bar> \<le> \<bar>u2 - u1\<bar>"
  shows "last (bresenham_loop (nat (\<bar>u2 - u1\<bar> + 1)) 0 steep \<bar>u2 - u1\<bar> \<bar>v2 - v1\<bar>
            (if u1 < u2 then 1 else - 1) (if v1 < v2 then 1 else - 1)
            (2 * \<bar>v2 - v1\<bar> - \<bar>u2 - u1\<bar>) (PyInt u1) (PyInt v1))
         = (if steep then (of_int v2, of_int u2, \<bar>u2 - u1\<bar>, \<bar>u2 - u1\<bar>)
            else (of_int u2, of_int v2, \<bar>u2 - u1\<bar>, \<bar>u2 - u1\<bar>))"
proof (cases "u1 = u2")
  case True
  with assms have "v1 = v2" by simp
  with True show ?thesis by simp
next
  case False
  define dx where "dx = \<bar>u2 - u1\<bar>"
  define dy where "dy = \<bar>v2 - v1\<bar>"
  define sx :: int where "sx = (if u1 < u2 then 1 else - 1)"
  define sy :: int where "sy = (if v1 < v2 then 1 else - 1)"
  have pos: "0 < dx" using False by (simp add: dx_def)
  have n: "nat (dx + 1) = Suc (nat dx)" using pos by simp
  have l: "last (bresenham_loop (Suc (nat dx)) 0 steep dx dy sx sy (2 * dy - dx) (PyInt u1) (PyInt v1))
     = (if steep then (of_int (v1 + (dy - 0) * sy), of_int (u1 + int (nat dx) * sx), 0 + int (nat dx), dx)
      else (of_int (u1 + int (nat dx) * sx), of_int (v1 + (dy - 0) * sy), 0 + int (nat dx), dx))"
    apply (rule bresenham_loop_last[where k=0])
    using pos assms by (simp_all add: dx_def dy_def)
  have x: "u1 + int (nat dx) * sx = u2" using pos by (simp add: dx_def sx_def)
  have y: "v1 + (dy - 0) * sy = v2" by (simp add: dy_def sy_def)
  show ?thesis
    using l pos unfolding x y n dx_def[symmetric] dy_def[symmetric] sx_def[symmetric] sy_def[symmetric]
    by simp
qed

lemma bresenham_core_hd:
  "hd (bresenham_loop (nat (\<bar>d\<bar> + 1)) 0 steep dx dy sx sy p x y)
         = (if steep then (val y, val x, 0, dx) else (val x, val y, 0, dx))"
proof -
  obtain n where "nat (\<bar>d\<bar> + 1) = Suc n" by (cases "nat (\<bar>d\<bar> + 1)") auto
  then show ?thesis by simp
qed

lemma bresenham_core_nonempty:
  "bresenham_loop (nat (\<bar>d\<bar> + 1)) 0 steep dx dy sx sy p x y \<noteq> []"
proof -
  obtain n where "nat (\<bar>d\<bar> + 1) = Suc n" by (cases "nat (\<bar>d\<bar> + 1)") auto
  then show ?thesis by simp
qed

lemma bresenham_line_int:
  fixes a1 b1 a2 b2 :: int
  shows "bresenham_line (PyInt a1) (PyInt b1) (PyInt a2) (PyInt b2) \<noteq> []"
    and "\<exists>i n. hd (bresenham_line (PyInt a1) (PyInt b1) (PyInt a2) (PyInt b2)) = (of_int a1, of_int b1, i, n)"
    and "\<exists>i n. last (bresenham_line (PyInt a1) (PyInt b1) (PyInt a2) (PyInt b2)) = (of_int a2, of_int b2, i, n)"
proof -
  let ?steep = "\<bar>b2 - b1\<bar> > \<bar>a2 - a1\<bar>"
  have eq: "bresenham_line (PyInt a1) (PyInt b1) (PyInt a2) (PyInt b2) =
     (if ?steep then
        bresenham_loop (nat (\<bar>b2 - b1\<bar> + 1)) 0 True \<bar>b2 - b1\<bar> \<bar>a2 - a1\<bar>
            (if b1 < b2 then 1 else - 1) (if a1 < a2 then 1 else - 1)
            (2 * \<bar>a2 - a1\<bar> - \<bar>b2 - b1\<bar>) (PyInt b1) (PyInt a1)
      else bresenham_loop (nat (\<bar>a2 - a1\<bar> + 1)) 0 False \<bar>a2 - a1\<bar> \<bar>b2 - b1\<bar>
            (if a1 < a2 then 1 else - 1) (if b1 < b2 then 1 else - 1)
            (2 * \<bar>b2 - b1\<bar> - \<bar>a2 - a1\<bar>) (PyInt a1) (PyInt b1))"
    unfolding bresenham_line_def Let_def
    by (simp add: py_less_def)
  show "bresenham_line (PyInt a1) (PyInt b1) (PyInt a2) (PyInt b2) \<noteq> []"
    unfolding eq using bresenham_core_nonempty by simp
  show "\<exists>i n. hd (bresenham_line (PyInt a1) (PyInt b1) (PyInt a2) (PyInt b2)) = (of_int a1, of_int b1, i, n)"
    unfolding eq using bresenham_core_hd by simp
  show "\<exists>i n. last (bresenham_line (PyInt a1) (PyInt b1) (PyInt a2) (PyInt b2)) = (of_int a2, of_int b2, i, n)"
  proof (cases ?steep)
    case True
    then have "\<bar>a2 - a1\<bar> \<le> \<bar>b2 - b1\<bar>" by simp
    from bresenham_core_last[OF this, of True] True show ?thesis
      unfolding eq by simp
  next
    case False
    then have "\<bar>b2 - b1\<bar> \<le> \<bar>a2 - a1\<bar>" by simp
    from bresenham_core_last[OF this, of False] False show ?thesis
      unfolding eq by simp
  qed
qed

lemma in_pixels: "(x, y, i, n) \<in> set calls \<Longrightarrow> (x, y) \<in> set (pixels calls)"
  by (force simp: pixels_def)

section \<open>DDA: the accumulators\<close>

lemma fl_zero: "fl 0 = 0"
  by (simp add: fl_def)

lemma fl_one: "fl 1 = 1"
  using fl_of_int[of 1] by simp

lemma fl_numeral: "numeral n \<le> (2::int) ^ 53 \<Longrightarrow> fl (numeral n) = numeral n"
  using fl_of_int[of "numeral n"] by simp

lemma fl_dyadic: "\<bar>m\<bar> \<le> 2 ^ 53 \<Longrightarrow> fl (of_int m / 2 ^ k) = of_int m / 2 ^ k"
  using fl_exact[of m "- int k"] by (simp add: powr_minus powr_realpow divide_inverse)

lemma dda_loop_map:
  "dda_loop n i steps x_inc y_inc x y =
     map (\<lambda>k. (of_int (py_round (((\<lambda>z. fl (z + x_inc)) ^^ k) x)),
                of_int (py_round (((\<lambda>z. fl (z + y_inc)) ^^ k) y)), i + int k, steps)) [0..<n]"
proof (induction n arbitrary: i x y)
  case 0
  show ?case by simp
next
  case (Suc n)
  show ?case
    unfolding dda_loop.simps Suc.IH map_upt_Suc
    by (simp add: funpow_swap1[of "\<lambda>z. fl (z + x_inc)"]
        funpow_swap1[of "\<lambda>z. fl (z + y_inc)"] del: upt_Suc)
qed

lemma sdda_back_loop_map:
  "sdda_back_loop n i steps x_inc y_inc x y =
     map (\<lambda>k. (of_int (py_round (((\<lambda>z. fl (z - x_inc)) ^^ k) x)),
                of_int (py_round (((\<lambda>z. fl (z - y_inc)) ^^ k) y)),
                i + int k + (steps div 2) + 1, steps)) [0..<n]"
proof (induction n arbitrary: i x y)
  case 0
  show ?case by simp
next
  case (Suc n)
  show ?case
    unfolding sdda_back_loop.simps Suc.IH map_upt_Suc
    by (simp add: funpow_swap1[of "\<lambda>z. fl (z - x_inc)"]
        funpow_swap1[of "\<lambda>z. fl (z - y_inc)"] del: upt_Suc)
qed

lemma dda_axis_error:
  fixes a d n M :: int
  assumes n: "0 < n" and d: "\<bar>d\<bar> \<le> n" and a: "\<bar>a\<bar> \<le> M" and b: "\<bar>a + d\<bar> \<le> M"
    and bound: "n * (M + 2) < 2 ^ 52" and k: "k \<le> nat n"
  shows "\<bar>((\<lambda>z. fl (z + fl (of_int d / of_int n))) ^^ k) (of_int a)
           - (of_int a + of_nat k * (of_int d / of_int n))\<bar>
         \<le> of_nat k * (of_int M + 2) / 2 ^ 53"
  using k
proof (induction k)
  case 0
  show ?case by simp
next
  case (Suc k)
  define q where "q = real_of_int d / of_int n"
  define inc where "inc = fl q"
  define z where "z = ((\<lambda>z. fl (z + inc)) ^^ k) (of_int a)"
  define T where "T = real_of_int a + of_nat k * q"
  define T' where "T' = real_of_int a + of_nat (Suc k) * q"
  define E where "E = real k * (of_int M + 2) / 2 ^ 53"
  define t where "t = real (Suc k) / of_int n"
  have M0: "0 \<le> M" using a by linarith
  have kn: "int (Suc k) \<le> n" using Suc.prems by simp
  have IH: "\<bar>z - T\<bar> \<le> E"
    using Suc.IH Suc.prems unfolding z_def T_def E_def inc_def q_def by simp
  have q1: "\<bar>q\<bar> \<le> 1"
  proof -
    have "\<bar>real_of_int d\<bar> \<le> real_of_int n" using d by linarith
    then show ?thesis using n by (simp add: q_def)
  qed
  have incq: "\<bar>inc - q\<bar> \<le> 1 / 2 ^ 53"
  proof -
    have "\<bar>inc - q\<bar> \<le> \<bar>q\<bar> / 2 ^ 53" unfolding inc_def by (rule fl_error)
    also have "\<dots> \<le> 1 / 2 ^ 53" using q1 by (simp add: divide_right_mono)
    finally show ?thesis .
  qed
  have t01: "0 \<le> t" "t \<le> 1"
  proof -
    show "0 \<le> t" using n by (simp add: t_def)
    have "real (Suc k) \<le> real_of_int n" using kn by linarith
    then show "t \<le> 1" using n by (simp add: t_def)
  qed
  have T'eq: "T' = (1 - t) * of_int a + t * of_int (a + d)"
    using n by (simp add: T'_def t_def q_def field_simps)
  have T'M: "\<bar>T'\<bar> \<le> of_int M"
  proof -
    have "\<bar>T'\<bar> \<le> \<bar>(1 - t) * of_int a\<bar> + \<bar>t * of_int (a + d)\<bar>"
      unfolding T'eq by (rule abs_triangle_ineq)
    also have "\<dots> = (1 - t) * \<bar>real_of_int a\<bar> + t * \<bar>real_of_int (a + d)\<bar>"
      using t01 by (simp add: abs_mult)
    also have "\<dots> \<le> (1 - t) * of_int M + t * of_int M"
    proof (rule add_mono)
      have "\<bar>real_of_int a\<bar> \<le> of_int M" using a by linarith
      then show "(1 - t) * \<bar>real_of_int a\<bar> \<le> (1 - t) * of_int M"
        using t01 by (simp add: mult_left_mono)
      have "\<bar>real_of_int (a + d)\<bar> \<le> of_int M" using b by linarith
      then show "t * \<bar>real_of_int (a + d)\<bar> \<le> t * of_int M"
        using t01 by (simp add: mult_left_mono)
    qed
    also have "\<dots> = of_int M" by (simp add: algebra_simps)
    finally show ?thesis .
  qed
  have Ehalf: "E < 1 / 2"
  proof -
    have "int k * (M + 2) \<le> n * (M + 2)"
      using kn M0 by (intro mult_right_mono) simp_all
    with bound have "int k * (M + 2) < 2 ^ 52" by linarith
    then have "real_of_int (int k * (M + 2)) < real_of_int (2 ^ 52)" by (simp only: of_int_less_iff)
    then have "real k * (of_int M + 2) < 2 ^ 52" by simp
    then have "real k * (of_int M + 2) / 2 ^ 53 < 2 ^ 52 / 2 ^ 53"
      by (simp add: divide_strict_right_mono)
    then show ?thesis by (simp add: E_def)
  qed
  have TT': "T' = T + q" by (simp add: T'_def T_def algebra_simps)
  have s: "\<bar>z + inc - T'\<bar> \<le> E + 1 / 2 ^ 53"
    using IH incq unfolding TT' by linarith
  have zi: "\<bar>z + inc\<bar> \<le> of_int M + 1 / 2 + 1 / 2 ^ 53"
    using s T'M Ehalf by linarith
  have "\<bar>fl (z + inc) - (z + inc)\<bar> \<le> \<bar>z + inc\<bar> / 2 ^ 53" by (rule fl_error)
  also have "\<dots> \<le> (of_int M + 1 / 2 + 1 / 2 ^ 53) / 2 ^ 53"
    using zi by (simp add: divide_right_mono)
  finally have r: "\<bar>fl (z + inc) - (z + inc)\<bar> \<le> (of_int M + 1 / 2 + 1 / 2 ^ 53) / 2 ^ 53" .
  have "\<bar>fl (z + inc) - T'\<bar> \<le> E + 1 / 2 ^ 53 + (of_int M + 1 / 2 + 1 / 2 ^ 53) / 2 ^ 53"
    using r s by linarith
  also have "\<dots> \<le> E + (of_int M + 2) / 2 ^ 53"
    by (simp add: field_simps)
  also have "\<dots> = real (Suc k) * (of_int M + 2) / 2 ^ 53"
    by (simp add: E_def field_simps)
  finally show ?case
    unfolding z_def T'_def inc_def q_def by simp
qed

lemma val_py_abs: "val (py_abs a) = \<bar>val a\<bar>"
  by (cases a) simp_all

lemma val_py_max: "val (py_max a b) = max (val a) (val b)"
  by (simp add: py_max_def py_less_def max_def)

lemma py_trunc_val: "py_trunc a = py_int (val a)"
  by (cases a) (simp_all add: py_int_of_int)

lemma dda_steps_val:
  "dda_steps x1 y1 x2 y2 = py_int (max \<bar>val (py_sub x2 x1)\<bar> \<bar>val (py_sub y2 y1)\<bar>)"
  by (simp add: dda_steps_def py_trunc_val val_py_max val_py_abs)

lemma dda_steps_nonneg: "0 \<le> dda_steps x1 y1 x2 y2"
  unfolding dda_steps_val by (simp add: py_int_def max_def)

lemma dda_steps_int:
  "dda_steps (PyInt a1) (PyInt b1) (PyInt a2) (PyInt b2) = max \<bar>a2 - a1\<bar> \<bar>b2 - b1\<bar>"
proof -
  have "(real_of_int \<bar>a2 - a1\<bar> < real_of_int \<bar>b2 - b1\<bar>) = (\<bar>a2 - a1\<bar> < \<bar>b2 - b1\<bar>)"
    by (rule of_int_less_iff)
  then show ?thesis
    unfolding dda_steps_def Let_def py_sub.simps py_abs.simps py_max_def py_less_def val.simps
    by (simp add: max_def)
qed

lemma dda_loop_length: "length (dda_loop n i steps x_inc y_inc x y) = n"
  by (simp add: dda_loop_map)

lemma fl_tie_52: "fl (9007199254740993 / 2) = 4503599627370496"
proof -
  have "fl (9007199254740993 / 2)
        = of_int (py_round ((9007199254740993 / 2) / 2 powr of_int (52 - 52))) * 2 powr of_int (52 - 52)"
    by (rule fl_eval) simp_all
  then show ?thesis by (simp add: py_round_def Let_def)
qed

lemma fl_53_1: "fl 9007199254740993 = 9007199254740992"
proof -
  have "fl 9007199254740993
        = of_int (py_round (9007199254740993 / 2 powr of_int (53 - 52))) * 2 powr of_int (53 - 52)"
    by (rule fl_eval) simp_all
  then show ?thesis by (simp add: py_round_def Let_def)
qed

lemma fl_53_3: "fl 9007199254740995 = 9007199254740996"
proof -
  have "fl 9007199254740995
        = of_int (py_round (9007199254740995 / 2 powr of_int (53 - 52))) * 2 powr of_int (53 - 52)"
    by (rule fl_eval) simp_all
  then show ?thesis by (simp add: py_round_def Let_def)
qed

lemma fl_half: "fl (1 / 2) = 1 / 2"
  using fl_dyadic[of 1 1] by simp

lemma dda_axis_end:
  fixes a d n M :: int
  assumes n: "0 < n" and d: "\<bar>d\<bar> \<le> n" and a: "\<bar>a\<bar> \<le> M" and b: "\<bar>a + d\<bar> \<le> M"
    and bound: "n * (M + 2) < 2 ^ 52"
  shows "py_round (((\<lambda>z. fl (z + fl (of_int d / of_int n))) ^^ nat n) (fl (of_int a))) = a + d"
proof -
  have M0: "0 \<le> M" using a by linarith
  have "1 * (M + 2) \<le> n * (M + 2)"
    using n M0 by (intro mult_right_mono) simp_all
  with bound have M52: "M + 2 < 2 ^ 52" by simp
  then have "\<bar>a\<bar> \<le> 2 ^ 53" using a by simp
  then have fa: "fl (of_int a) = of_int a" by (rule fl_of_int)
  let ?z = "((\<lambda>z. fl (z + fl (of_int d / of_int n))) ^^ nat n) (of_int a)"
  have e: "\<bar>?z - (of_int a + of_nat (nat n) * (of_int d / of_int n))\<bar>
             \<le> of_nat (nat n) * (of_int M + 2) / 2 ^ 53"
    by (rule dda_axis_error[OF n d a b bound]) simp
  have t: "real_of_int a + of_nat (nat n) * (of_int d / of_int n) = of_int (a + d)"
    using n by simp
  have "real_of_int (n * (M + 2)) < real_of_int (2 ^ 52)"
    using bound by (simp only: of_int_less_iff)
  then have "real_of_int n * (of_int M + 2) < 2 ^ 52" by simp
  then have "real_of_int n * (of_int M + 2) / 2 ^ 53 < 2 ^ 52 / 2 ^ 53"
    by (simp add: divide_strict_right_mono)
  then have h: "of_nat (nat n) * (real_of_int M + 2) / 2 ^ 53 < 1 / 2"
    using n by simp
  from e h have "\<bar>?z - of_int (a + d)\<bar> < 1 / 2" unfolding t by linarith
  then have "py_round ?z = a + d" by (rule py_round_near)
  then show ?thesis unfolding fa .
qed

lemma dda_line_int:
  "dda_line (PyInt x1) (PyInt y1) (PyInt x2) (PyInt y2) =
     (let steps = max \<bar>x2 - x1\<bar> \<bar>y2 - y1\<bar>;
          x_inc = fl (of_int (x2 - x1) / of_int steps);
          y_inc = fl (of_int (y2 - y1) / of_int steps)
      in if steps = 0 then [(of_int x1, of_int y1, 0, 0)]
         else map (\<lambda>k. (of_int (py_round (((\<lambda>z. fl (z + x_inc)) ^^ k) (fl (of_int x1)))),
                         of_int (py_round (((\<lambda>z. fl (z + y_inc)) ^^ k) (fl (of_int y1)))),
                         0 + int k, steps))
                [0..<nat (steps + 1)])"
proof -
  have z: "max \<bar>x2 - x1\<bar> \<bar>y2 - y1\<bar> = 0 \<longleftrightarrow> x2 = x1 \<and> y2 = y1"
    by linarith
  show ?thesis
    unfolding dda_line_def dda_steps_int Let_def dda_loop_map
    by (simp add: z del: upt_Suc)
qed

lemma symmetrical_dda_line_int:
  "symmetrical_dda_line (PyInt x1) (PyInt y1) (PyInt x2) (PyInt y2) =
     (let steps = max \<bar>x2 - x1\<bar> \<bar>y2 - y1\<bar>;
          x_inc = fl (of_int (x2 - x1) / of_int steps);
          y_inc = fl (of_int (y2 - y1) / of_int steps)
      in if steps = 0 then [(of_int x1, of_int y1, 0, 0)]
         else dda_loop (nat (steps div 2 + 1)) 0 steps x_inc y_inc (fl (of_int x1)) (fl (of_int y1))
              @ sdda_back_loop (nat (steps - steps div 2)) 0 steps x_inc y_inc
                  (fl (of_int x2)) (fl (of_int y2)))"
proof -
  have "dda_steps (PyInt x1) (PyInt y1) (PyInt x2) (PyInt y2) = max \<bar>x2 - x1\<bar> \<bar>y2 - y1\<bar>"
    by (rule dda_steps_int)
  then have "py_trunc (py_max (py_abs (py_sub (PyInt x2) (PyInt x1))) (py_abs (py_sub (PyInt y2) (PyInt y1))))
      = max \<bar>x2 - x1\<bar> \<bar>y2 - y1\<bar>"
    by (simp add: dda_steps_def)
  then show ?thesis
    unfolding symmetrical_dda_line_def Let_def by (simp only: py_sub.simps py_truediv.simps val.simps py_float.simps)
qed

lemma dda_loop_first:
  "0 < n \<Longrightarrow> (of_int (py_round x), of_int (py_round y), i, steps) \<in> set (dda_loop n i steps x_inc y_inc x y)"
  by (cases n) simp_all

lemma sdda_back_loop_first:
  "0 < n \<Longrightarrow> (of_int (py_round x), of_int (py_round y), i + (steps div 2) + 1, steps)
      \<in> set (sdda_back_loop n i steps x_inc y_inc x y)"
  by (cases n) simp_all

section \<open>DDA step count and emitted points\<close>

text \<open>
  C1 as stated takes the step count to be \<open>round(max(|dx|,|dy|))\<close>. The code
  computes \<open>int(max(|dx|,|dy|))\<close>, which truncates. The rasterizers are called with
  effective parameters, which are fractional after a rotation or a scaling; for the
  line from \<open>(0,0)\<close> to \<open>(2.75,0)\<close> the step count is 2 while the rounded maximum
  is 3, and three points are emitted.
\<close>

theorem dda_steps_round_counterexample:
  "dda_steps (PyInt 0) (PyInt 0) (PyFloat (11 / 4)) (PyInt 0) = 2
   \<and> py_round (max \<bar>11 / 4 - 0\<bar> \<bar>0 - 0\<bar>) = 3
   \<and> dda_line (PyInt 0) (PyInt 0) (PyFloat (11 / 4)) (PyInt 0)
       = [(0, 0, 0, 2), (1, 0, 1, 2), (3, 0, 2, 2)]"
proof -
  have a: "fl (11 / 4) = 11 / 4" using fl_dyadic[of 11 2] by simp
  have b: "fl (11 / 8) = 11 / 8" using fl_dyadic[of 11 3] by simp
  have s: "dda_steps (PyInt 0) (PyInt 0) (PyFloat (11 / 4)) (PyInt 0) = 2"
    by (simp add: dda_steps_def py_max_def py_less_def fl_zero a py_int_def)
  have r: "py_round (max \<bar>11 / 4 - 0\<bar> \<bar>0 - 0\<bar>) = 3"
    by (simp add: py_round_def Let_def)
  have l: "dda_line (PyInt 0) (PyInt 0) (PyFloat (11 / 4)) (PyInt 0)
       = [(0, 0, 0, 2), (1, 0, 1, 2), (3, 0, 2, 2)]"
    unfolding dda_line_def s Let_def
    by (simp add: fl_zero fl_numeral a b py_round_def Let_def numeral_3_eq_3)
  from s r l show ?thesis by simp
qed

text \<open>
  C1, amended. The DDA step count is \<open>int(max(|dx|,|dy|))\<close>, the maximum truncated
  towards zero; it equals \<open>round(max(|dx|,|dy|))\<close> whenever the endpoints are
  integers. When the count is 0 exactly one point, the start point as given, is
  emitted; otherwise exactly \<open>steps + 1\<close> points are emitted: the accumulators start
  at \<open>(float(x1), float(y1))\<close>, each step adds the increments \<open>dx/steps\<close> and
  \<open>dy/steps\<close> to them in double arithmetic, and the point emitted at step \<open>k\<close> is
  the accumulator pair after \<open>k\<close> additions with each coordinate rounded to the
  nearest integer. DDA from \<open>(0,0)\<close> to \<open>(10,0)\<close> emits exactly the 11 points
  \<open>(x,0)\<close> for \<open>x = 0..10\<close>.
\<close>

theorem dda_line_points:
  "dda_steps x1 y1 x2 y2 = py_int (max \<bar>val (py_sub x2 x1)\<bar> \<bar>val (py_sub y2 y1)\<bar>)
   \<and> dda_steps (PyInt a1) (PyInt b1) (PyInt a2) (PyInt b2)
       = py_round (max \<bar>of_int a2 - of_int a1\<bar> \<bar>of_int b2 - of_int b1\<bar>)
   \<and> dda_line x1 y1 x2 y2 =
       (let steps = dda_steps x1 y1 x2 y2;
            x_inc = py_truediv (py_sub x2 x1) steps;
            y_inc = py_truediv (py_sub y2 y1) steps
        in if steps = 0 then [(val x1, val y1, 0, 0)]
           else map (\<lambda>k. (of_int (py_round (((\<lambda>x. fl (x + x_inc)) ^^ k) (py_float x1))),
                           of_int (py_round (((\<lambda>y. fl (y + y_inc)) ^^ k) (py_float y1))),
                           int k, steps))
                  [0..<nat steps + 1])
   \<and> length (dda_line x1 y1 x2 y2) =
       (if dda_steps x1 y1 x2 y2 = 0 then 1 else nat (dda_steps x1 y1 x2 y2) + 1)
   \<and> pixels (dda_line (PyInt 0) (PyInt 0) (PyInt 10) (PyInt 0))
       = map (\<lambda>k. (of_nat k, 0)) [0..<11]"
proof -
  have n: "nat (dda_steps x1 y1 x2 y2 + 1) = nat (dda_steps x1 y1 x2 y2) + 1"
    using dda_steps_nonneg[of x1 y1 x2 y2] by simp
  have s: "dda_steps x1 y1 x2 y2 = py_int (max \<bar>val (py_sub x2 x1)\<bar> \<bar>val (py_sub y2 y1)\<bar>)"
    by (rule dda_steps_val)
  have a: "dda_line x1 y1 x2 y2 =
       (let steps = dda_steps x1 y1 x2 y2;
            x_inc = py_truediv (py_sub x2 x1) steps;
            y_inc = py_truediv (py_sub y2 y1) steps
        in if steps = 0 then [(val x1, val y1, 0, 0)]
           else map (\<lambda>k. (of_int (py_round (((\<lambda>x. fl (x + x_inc)) ^^ k) (py_float x1))),
                           of_int (py_round (((\<lambda>y. fl (y + y_inc)) ^^ k) (py_float y1))),
                           int k, steps))
                  [0..<nat steps + 1])"
    using n by (simp add: dda_line_def dda_loop_map Let_def del: upt_Suc)
  have b: "length (dda_line x1 y1 x2 y2) =
       (if dda_steps x1 y1 x2 y2 = 0 then 1 else nat (dda_steps x1 y1 x2 y2) + 1)"
    using n by (simp add: dda_line_def dda_loop_length Let_def)
  have "max \<bar>real_of_int a2 - of_int a1\<bar> \<bar>of_int b2 - of_int b1\<bar> = of_int (max \<bar>a2 - a1\<bar> \<bar>b2 - b1\<bar>)"
    by (simp only: of_int_max of_int_abs of_int_diff)
  then have c: "dda_steps (PyInt a1) (PyInt b1) (PyInt a2) (PyInt b2)
       = py_round (max \<bar>of_int a2 - of_int a1\<bar> \<bar>of_int b2 - of_int b1\<bar>)"
    by (simp only: dda_steps_int py_round_of_int)
  have st: "dda_steps (PyInt 0) (PyInt 0) (PyInt 10) (PyInt 0) = 10"
    by (simp add: dda_steps_int)
  have d: "pixels (dda_line (PyInt 0) (PyInt 0) (PyInt 10) (PyInt 0)) = map (\<lambda>k. (of_nat k, 0)) [0..<11]"
    unfolding dda_line_def st Let_def
    by (simp add: pixels_def fl_zero fl_one fl_numeral py_round_def Let_def eval_nat_numeral)
  from s a b c d show ?thesis by blast
qed

section \<open>Endpoint inclusion of the line rasterizers\<close>

text \<open>
  C2 as stated holds for every pair of integer endpoints. The two DDA rasterizers work
  on doubles. From \<open>(0, 2^52)\<close> to \<open>(2, 2^52 + 1)\<close> the increment of \<open>y\<close> is
  \<open>0.5\<close> and \<open>2^52 + 0.5\<close> rounds back to \<open>2^52\<close>, so DDA never reaches the far
  endpoint. From \<open>(2^53 + 1, 0)\<close> to \<open>(2^53 + 3, 0)\<close> the conversion
  \<open>float(x1)\<close> already gives \<open>2^53\<close> and \<open>float(x2)\<close> gives \<open>2^53 + 4\<close>: DDA
  and Symmetrical DDA contain neither endpoint.
\<close>

theorem dda_endpoint_counterexample:
  "pixels (dda_line (PyInt 0) (PyInt (2 ^ 52)) (PyInt 2) (PyInt (2 ^ 52 + 1)))
     = [(0, 2 ^ 52), (1, 2 ^ 52), (2, 2 ^ 52)]
   \<and> (2, 2 ^ 52 + 1) \<notin> set (pixels (dda_line (PyInt 0) (PyInt (2 ^ 52)) (PyInt 2) (PyInt (2 ^ 52 + 1))))
   \<and> pixels (dda_line (PyInt (2 ^ 53 + 1)) (PyInt 0) (PyInt (2 ^ 53 + 3)) (PyInt 0))
     = [(2 ^ 53, 0), (2 ^ 53, 0), (2 ^ 53, 0)]
   \<and> pixels (symmetrical_dda_line (PyInt (2 ^ 53 + 1)) (PyInt 0) (PyInt (2 ^ 53 + 3)) (PyInt 0))
     = [(2 ^ 53, 0), (2 ^ 53, 0), (2 ^ 53 + 4, 0)]"
proof -
  have s1: "dda_steps (PyInt 0) (PyInt (2 ^ 52)) (PyInt 2) (PyInt (2 ^ 52 + 1)) = 2"
    by (simp add: dda_steps_int)
  have a: "pixels (dda_line (PyInt 0) (PyInt (2 ^ 52)) (PyInt 2) (PyInt (2 ^ 52 + 1)))
     = [(0, 2 ^ 52), (1, 2 ^ 52), (2, 2 ^ 52)]"
    unfolding dda_line_def s1 Let_def
    by (simp add: pixels_def fl_zero fl_one fl_numeral fl_half fl_tie_52 py_round_def Let_def
        numeral_3_eq_3)
  have s2: "dda_steps (PyInt (2 ^ 53 + 1)) (PyInt 0) (PyInt (2 ^ 53 + 3)) (PyInt 0) = 2"
    by (simp add: dda_steps_int)
  have b: "pixels (dda_line (PyInt (2 ^ 53 + 1)) (PyInt 0) (PyInt (2 ^ 53 + 3)) (PyInt 0))
     = [(2 ^ 53, 0), (2 ^ 53, 0), (2 ^ 53, 0)]"
    unfolding dda_line_def s2 Let_def
    by (simp add: pixels_def fl_zero fl_one fl_numeral fl_53_1 py_round_def Let_def
        numeral_3_eq_3)
  have c: "pixels (symmetrical_dda_line (PyInt (2 ^ 53 + 1)) (PyInt 0) (PyInt (2 ^ 53 + 3)) (PyInt 0))
     = [(2 ^ 53, 0), (2 ^ 53, 0), (2 ^ 53 + 4, 0)]"
    unfolding symmetrical_dda_line_def Let_def
    by (simp add: pixels_def py_max_def py_less_def fl_zero fl_one fl_numeral fl_53_1 fl_53_3
        py_round_def Let_def numeral_2_eq_2)
  from a b c show ?thesis by simp
qed

text \<open>
  C2, amended. For all integer endpoints \<open>(x1,y1)\<close> and \<open>(x2,y2)\<close> the pixel
  sequence of Bresenham contains both endpoints. With \<open>M\<close> the largest absolute value
  of the four coordinates and \<open>steps = max(|x2 - x1|, |y2 - y1|)\<close>: if \<open>M \<le> 2^53\<close>
  (every coordinate is a double) the sequence of Symmetrical DDA contains both endpoints
  and that of DDA contains \<open>(x1,y1)\<close>; if \<open>steps * (M + 2) < 2^52\<close> the rounding
  errors of the DDA accumulators stay below one half and the sequence of DDA contains
  \<open>(x2,y2)\<close>.
\<close>

theorem line_endpoints_included:
  fixes x1 y1 x2 y2 :: int
  shows
  "(let steps = max \<bar>x2 - x1\<bar> \<bar>y2 - y1\<bar>;
        M = max (max \<bar>x1\<bar> \<bar>y1\<bar>) (max \<bar>x2\<bar> \<bar>y2\<bar>);
        p1 = (real_of_int x1, real_of_int y1);
        p2 = (real_of_int x2, real_of_int y2)
    in p1 \<in> set (pixels (bresenham_line (PyInt x1) (PyInt y1) (PyInt x2) (PyInt y2)))
     \<and> p2 \<in> set (pixels (bresenham_line (PyInt x1) (PyInt y1) (PyInt x2) (PyInt y2)))
     \<and> (M \<le> 2 ^ 53 \<longrightarrow>
          p1 \<in> set (pixels (symmetrical_dda_line (PyInt x1) (PyInt y1) (PyInt x2) (PyInt y2)))
        \<and> p2 \<in> set (pixels (symmetrical_dda_line (PyInt x1) (PyInt y1) (PyInt x2) (PyInt y2)))
        \<and> p1 \<in> set (pixels (dda_line (PyInt x1) (PyInt y1) (PyInt x2) (PyInt y2))))
     \<and> (steps * (M + 2) < 2 ^ 52 \<longrightarrow>
          p2 \<in> set (pixels (dda_line (PyInt x1) (PyInt y1) (PyInt x2) (PyInt y2)))))"
proof -
  define steps where "steps = max \<bar>x2 - x1\<bar> \<bar>y2 - y1\<bar>"
  define M where "M = max (max \<bar>x1\<bar> \<bar>y1\<bar>) (max \<bar>x2\<bar> \<bar>y2\<bar>)"
  define xi where "xi = fl (real_of_int (x2 - x1) / of_int steps)"
  define yi where "yi = fl (real_of_int (y2 - y1) / of_int steps)"
  have nonneg: "0 \<le> steps" by (simp add: steps_def)
  have zero: "steps = 0 \<Longrightarrow> x1 = x2 \<and> y1 = y2"
    by (auto simp: steps_def max_def split: if_splits)
  have dl: "dda_line (PyInt x1) (PyInt y1) (PyInt x2) (PyInt y2) =
      (if steps = 0 then [(of_int x1, of_int y1, 0, 0)]
       else map (\<lambda>k. (of_int (py_round (((\<lambda>z. fl (z + xi)) ^^ k) (fl (of_int x1)))),
                       of_int (py_round (((\<lambda>z. fl (z + yi)) ^^ k) (fl (of_int y1)))),
                       0 + int k, steps))
              [0..<nat (steps + 1)])"
    unfolding dda_line_int Let_def steps_def xi_def yi_def ..
  have sl: "symmetrical_dda_line (PyInt x1) (PyInt y1) (PyInt x2) (PyInt y2) =
      (if steps = 0 then [(of_int x1, of_int y1, 0, 0)]
       else dda_loop (nat (steps div 2 + 1)) 0 steps xi yi (fl (of_int x1)) (fl (of_int y1))
            @ sdda_back_loop (nat (steps - steps div 2)) 0 steps xi yi
                (fl (of_int x2)) (fl (of_int y2)))"
    unfolding symmetrical_dda_line_int Let_def steps_def xi_def yi_def ..
  let ?b = "bresenham_line (PyInt x1) (PyInt y1) (PyInt x2) (PyInt y2)"
  have ne: "?b \<noteq> []" by (rule bresenham_line_int)
  obtain i n where "hd ?b = (of_int x1, of_int y1, i, n)"
    using bresenham_line_int(2) by blast
  with ne have "(of_int x1, of_int y1, i, n) \<in> set ?b" by (metis hd_in_set)
  then have br1: "(of_int x1, of_int y1) \<in> set (pixels ?b)" by (rule in_pixels)
  obtain j m where "last ?b = (of_int x2, of_int y2, j, m)"
    using bresenham_line_int(3) by blast
  with ne have "(of_int x2, of_int y2, j, m) \<in> set ?b" by (metis last_in_set)
  then have br2: "(of_int x2, of_int y2) \<in> set (pixels ?b)" by (rule in_pixels)
  have small: "(of_int x1, of_int y1) \<in> set (pixels (symmetrical_dda_line (PyInt x1) (PyInt y1) (PyInt x2) (PyInt y2)))
        \<and> (of_int x2, of_int y2) \<in> set (pixels (symmetrical_dda_line (PyInt x1) (PyInt y1) (PyInt x2) (PyInt y2)))
        \<and> (of_int x1, of_int y1) \<in> set (pixels (dda_line (PyInt x1) (PyInt y1) (PyInt x2) (PyInt y2)))"
    if m: "M \<le> 2 ^ 53"
  proof -
    have "\<bar>x1\<bar> \<le> M" "\<bar>y1\<bar> \<le> M" "\<bar>x2\<bar> \<le> M" "\<bar>y2\<bar> \<le> M"
      unfolding M_def by linarith+
    with m have "\<bar>x1\<bar> \<le> 2 ^ 53" "\<bar>y1\<bar> \<le> 2 ^ 53" "\<bar>x2\<bar> \<le> 2 ^ 53" "\<bar>y2\<bar> \<le> 2 ^ 53"
      by linarith+
    then have f: "fl (of_int x1) = of_int x1" "fl (of_int y1) = of_int y1"
      "fl (of_int x2) = of_int x2" "fl (of_int y2) = of_int y2"
      by (simp_all add: fl_of_int)
    show ?thesis
    proof (cases "steps = 0")
      case True
      with zero have "x1 = x2" "y1 = y2" by simp_all
      with True show ?thesis unfolding sl dl by (simp add: pixels_def)
    next
      case False
      have "(of_int (py_round (of_int x1)), of_int (py_round (of_int y1)), 0, steps)
         \<in> set (dda_loop (nat (steps div 2 + 1)) 0 steps xi yi (of_int x1) (of_int y1))"
        by (rule dda_loop_first) (use nonneg in simp)
      then have s1: "(real_of_int x1, real_of_int y1) \<in> set (pixels (symmetrical_dda_line (PyInt x1) (PyInt y1) (PyInt x2) (PyInt y2)))"
        using False unfolding sl f py_round_of_int by (auto intro: in_pixels)
      have "(of_int (py_round (of_int x2)), of_int (py_round (of_int y2)), 0 + (steps div 2) + 1, steps)
         \<in> set (sdda_back_loop (nat (steps - steps div 2)) 0 steps xi yi (of_int x2) (of_int y2))"
        by (rule sdda_back_loop_first) (use nonneg False in simp)
      then have s2: "(real_of_int x2, real_of_int y2) \<in> set (pixels (symmetrical_dda_line (PyInt x1) (PyInt y1) (PyInt x2) (PyInt y2)))"
        using False unfolding sl f py_round_of_int by (auto intro: in_pixels)
      have "0 \<in> set [0..<nat (steps + 1)]" using nonneg by simp
      then have "(of_int (py_round (((\<lambda>z. fl (z + xi)) ^^ 0) (fl (of_int x1)))),
                       of_int (py_round (((\<lambda>z. fl (z + yi)) ^^ 0) (fl (of_int y1)))),
                       0 + int 0, steps) \<in> set (dda_line (PyInt x1) (PyInt y1) (PyInt x2) (PyInt y2))"
        using False unfolding dl by (simp only: if_False set_map image_eqI)
      then have "(real_of_int x1, real_of_int y1, 0, steps) \<in> set (dda_line (PyInt x1) (PyInt y1) (PyInt x2) (PyInt y2))"
        by (simp add: f py_round_of_int)
      then have d1: "(real_of_int x1, real_of_int y1) \<in> set (pixels (dda_line (PyInt x1) (PyInt y1) (PyInt x2) (PyInt y2)))"
        by (rule in_pixels)
      from s1 s2 d1 show ?thesis by simp
    qed
  qed
  have far: "(of_int x2, of_int y2) \<in> set (pixels (dda_line (PyInt x1) (PyInt y1) (PyInt x2) (PyInt y2)))"
    if bound: "steps * (M + 2) < 2 ^ 52"
  proof (cases "steps = 0")
    case True
    with zero have "x1 = x2" "y1 = y2" by simp_all
    with True show ?thesis unfolding dl by (simp add: pixels_def)
  next
    case False
    with nonneg have pos: "0 < steps" by simp
    have ax: "\<bar>x1\<bar> \<le> M" "\<bar>x1 + (x2 - x1)\<bar> \<le> M" "\<bar>x2 - x1\<bar> \<le> steps"
      unfolding M_def steps_def by linarith+
    have ay: "\<bar>y1\<bar> \<le> M" "\<bar>y1 + (y2 - y1)\<bar> \<le> M" "\<bar>y2 - y1\<bar> \<le> steps"
      unfolding M_def steps_def by linarith+
    have ex: "py_round (((\<lambda>z. fl (z + xi)) ^^ nat steps) (fl (of_int x1))) = x1 + (x2 - x1)"
      unfolding xi_def by (rule dda_axis_end[OF pos ax(3) ax(1) ax(2) bound])
    have ey: "py_round (((\<lambda>z. fl (z + yi)) ^^ nat steps) (fl (of_int y1))) = y1 + (y2 - y1)"
      unfolding yi_def by (rule dda_axis_end[OF pos ay(3) ay(1) ay(2) bound])
    have "nat steps \<in> set [0..<nat (steps + 1)]" using nonneg by simp
    then have "(of_int (py_round (((\<lambda>z. fl (z + xi)) ^^ nat steps) (fl (of_int x1)))),
                       of_int (py_round (((\<lambda>z. fl (z + yi)) ^^ nat steps) (fl (of_int y1)))),
                       0 + int (nat steps), steps) \<in> set (dda_line (PyInt x1) (PyInt y1) (PyInt x2) (PyInt y2))"
      using False unfolding dl by (simp only: if_False set_map image_eqI)
    then have "(real_of_int x2, real_of_int y2, 0 + int (nat steps), steps) \<in> set (dda_line (PyInt x1) (PyInt y1) (PyInt x2) (PyInt y2))"
      unfolding ex ey by simp
    then show ?thesis by (rule in_pixels)
  qed
  from br1 br2 small far show ?thesis
    unfolding Let_def steps_def[symmetric] M_def[symmetric] by blast
qed

theorem line_endpoints_included_witness:
  "(0, 0) \<in> set (pixels (bresenham_line (PyInt 0) (PyInt 0) (PyInt 5) (PyInt 2)))
   \<and> (5, 2) \<in> set (pixels (bresenham_line (PyInt 0) (PyInt 0) (PyInt 5) (PyInt 2)))
   \<and> (0, 0) \<in> set (pixels (symmetrical_dda_line (PyInt 0) (PyInt 0) (PyInt 5) (PyInt 2)))
   \<and> (5, 2) \<in> set (pixels (symmetrical_dda_line (PyInt 0) (PyInt 0) (PyInt 5) (PyInt 2)))
   \<and> (0, 0) \<in> set (pixels (dda_line (PyInt 0) (PyInt 0) (PyInt 5) (PyInt 2)))
   \<and> (5, 2) \<in> set (pixels (dda_line (PyInt 0) (PyInt 0) (PyInt 5) (PyInt 2)))"
  using line_endpoints_included[of 5 0 2 0] by (simp add: Let_def)

section \<open>Transformation engine: totality and the working copy\<close>







lemma transform_loop_length: "length (snd (transform_loop a ts h)) = length h"
  by (induction ts arbitrary: h) (auto split: sum.splits)

lemma transform_loop_frame: "a' \<noteq> a \<Longrightarrow> snd (transform_loop a ts h) ! a' = h ! a'"
  by (induction ts arbitrary: h) (auto split: sum.splits)

lemma transform_loop_value:
  "a < length h \<Longrightarrow> transform_params ts (h ! a) = Inr p \<Longrightarrow> transform_loop a ts h = (None, h[a := p])"
  by (induction ts arbitrary: h) (auto split: sum.splits)

lemma transform_loop_error:
  "a < length h \<Longrightarrow> transform_params ts (h ! a) = Inl e \<Longrightarrow> fst (transform_loop a ts h) = Some e"
  by (induction ts arbitrary: h) (auto split: sum.splits)

lemma effective_params_eq:
  "effective_params h obj = transform_params (obj_transformations obj) (h ! obj_params obj)"
proof (cases "transform_params (obj_transformations obj) (h ! obj_params obj)")
  case (Inl e)
  have "fst (transform_loop (length h) (obj_transformations obj) (h @ [h ! obj_params obj])) = Some e"
    by (rule transform_loop_error) (simp_all add: Inl)
  then show ?thesis
    by (auto simp: effective_params_def apply_transformations_def Let_def Inl split: prod.splits option.splits)
next
  case (Inr p)
  have "transform_loop (length h) (obj_transformations obj) (h @ [h ! obj_params obj])
      = (None, (h @ [h ! obj_params obj])[length h := p])"
    by (rule transform_loop_value) (simp_all add: Inr)
  then show ?thesis
    by (simp add: effective_params_def apply_transformations_def Let_def Inr)
qed

lemma transform_params_snoc:
  "transform_params (ts @ [t]) p =
     (case transform_params ts p of Inl e \<Rightarrow> Inl e | Inr p' \<Rightarrow> apply_transformation t p')"
  by (induction ts arbitrary: p) (auto split: sum.splits)

section \<open>The store of parameter dictionaries under the interactions\<close>




lemma update_first_ids:
  "(\<And>obj. obj_id (f obj) = obj_id obj) \<Longrightarrow>
     map obj_id (update_first i f objs) = map obj_id objs"
  by (induction objs) auto



lemma mousePressEvent_cases:
  assumes "mousePressEvent dialog button x y s = Inr s1"
  shows "s1 = s \<or> s1 = s\<lparr>current_mode := MODE_IDLE\<rparr> \<or> (\<exists>lx ly. click_branches lx ly s = Inr s1)"
proof -
  obtain lx ly where l: "screen_to_logical (MID_X s) (MID_Y s)
      (py_round (of_int x / of_int GRID_SPACING) * GRID_SPACING)
      (py_round (of_int y / of_int GRID_SPACING) * GRID_SPACING) = (lx, ly)"
    by (meson surj_pair)
  show ?thesis
  proof (cases "dialog \<or> \<not> button")
    case True
    then have "mousePressEvent dialog button x y s = Inr s"
      by (auto simp: mousePressEvent_def)
    with assms show ?thesis by simp
  next
    case False
    then have "mousePressEvent dialog button x y s =
      (if current_algo_func s = None
               \<and> current_mode s \<notin> {MODE_SELECTING_OBJECT, MODE_APPLY_TRANSLATE,
                                     MODE_APPLY_REFLECT_LINE_P1, MODE_APPLY_REFLECT_LINE_P2}
            then Inr (s\<lparr>current_mode := MODE_IDLE\<rparr>)
            else click_branches lx ly s)"
      unfolding mousePressEvent_def Let_def l by simp
    with assms show ?thesis
      by (metis sum.inject(2))
  qed
qed





lemma base_kept_cong:
  "heap t = heap s \<Longrightarrow> objects_to_draw t = objects_to_draw s \<Longrightarrow> base_kept t = base_kept s"
  by (auto simp: base_kept_def fun_eq_iff)





section \<open>Effective parameters leave the base parameters alone\<close>



section \<open>Scaling\<close>

text \<open>
  C7. A scale record multiplies the radius of a circle by \<open>sx\<close> only, multiplies
  \<open>rx\<close> of an ellipse by \<open>sx\<close> and \<open>ry\<close> by \<open>sy\<close>, and scales both endpoints
  of a line per axis about the fixed point; this is what the last record of a
  transformation list contributes to the effective parameters.
\<close>

theorem scale_effect:
  "apply_transformation (Scale sx sy fx fy) (CircleParams xc yc r) = Inr (CircleParams xc yc (r * sx))
   \<and> apply_transformation (Scale sx sy fx fy) (EllipseParams xc yc rx ry)
       = Inr (EllipseParams xc yc (rx * sx) (ry * sy))
   \<and> apply_transformation (Scale sx sy fx fy) (LineParams x1 y1 x2 y2)
       = Inr (LineParams ((x1 - fx) * sx + fx) ((y1 - fy) * sy + fy)
                         ((x2 - fx) * sx + fx) ((y2 - fy) * sy + fy))
   \<and> effective_params h (obj\<lparr>obj_transformations := ts @ [Scale sx sy fx fy]\<rparr>)
       = (case effective_params h (obj\<lparr>obj_transformations := ts\<rparr>) of
            Inl e \<Rightarrow> Inl e
          | Inr p \<Rightarrow> apply_transformation (Scale sx sy fx fy) p)"
  by (simp add: scale_point_def Let_def effective_params_eq transform_params_snoc)

section \<open>Degenerate reflection line\<close>

text \<open>
  C9. When the two points of a reflection line coincide,
  \<open>reflect_point_across_line\<close> returns its input point and raises nothing, so such
  a record leaves the parameters as they are, and the effective parameters of an
  object are the same with the record appended as without it.
\<close>

theorem degenerate_reflection_identity:
  "reflect_point_across_line px py ax ay ax ay = Inr (px, py)
   \<and> apply_transformation (ReflectLine (ax, ay) (ax, ay)) p = Inr p
   \<and> effective_params h (obj\<lparr>obj_transformations := ts @ [ReflectLine (ax, ay) (ax, ay)]\<rparr>)
       = effective_params h (obj\<lparr>obj_transformations := ts\<rparr>)"
proof -
  have a: "reflect_point_across_line x y ax ay ax ay = Inr (x, y)" for x y
    by (simp add: reflect_point_across_line_def)
  have b: "apply_transformation (ReflectLine (ax, ay) (ax, ay)) q = Inr q" for q
    by (cases q) (simp_all add: a)
  have c: "effective_params h (obj\<lparr>obj_transformations := ts @ [ReflectLine (ax, ay) (ax, ay)]\<rparr>)
       = effective_params h (obj\<lparr>obj_transformations := ts\<rparr>)"
    by (simp add: effective_params_eq transform_params_snoc b split: sum.splits)
  from a b c show ?thesis by blast
qed

section \<open>Concentric shapes of a thick circle or ellipse\<close>

lemma counted_loop_concat:
  fixes L :: "nat \<Rightarrow> int \<Rightarrow> 'a list"
  assumes "\<And>i. L 0 i = []" and "\<And>n i. L (Suc n) i = F i @ L n (i + 1)"
  shows "L n i = concat (map (\<lambda>k. F (i + int k)) [0..<n])"
proof (induction n arbitrary: i)
  case 0
  show ?case by (simp add: assms(1))
next
  case (Suc n)
  have "[0..<Suc n] = 0 # map Suc [0..<n]"
    by (simp add: upt_conv_Cons map_Suc_upt del: upt_Suc)
  moreover have eq: "i + 1 + int k = i + int (Suc k)" for k by simp
  ultimately show ?case
    by (simp add: assms(2) Suc.IH o_def eq del: upt_Suc of_nat_Suc)
qed

lemma thick_circle_loop_eq:
  "thick_circle_loop n i xc yc r t =
     [DrawCircle xc yc (py_int (r + (of_int (i + int k) - (of_int t - 1) / 2))).
        k \<leftarrow> [0..<n], 1 \<le> r + (of_int (i + int k) - (of_int t - 1) / 2)]"
  by (rule counted_loop_concat[where L = "\<lambda>n i. thick_circle_loop n i xc yc r t"
        and F = "\<lambda>j. if 1 \<le> r + (of_int j - (of_int t - 1) / 2)
                      then [DrawCircle xc yc (py_int (r + (of_int j - (of_int t - 1) / 2)))] else []"])
     (simp_all add: Let_def)

lemma thick_ellipse_loop_eq:
  "thick_ellipse_loop n i xc yc rx ry t =
     [DrawEllipse xc yc (py_int (rx + (of_int (i + int k) - (of_int t - 1) / 2)))
                        (py_int (ry + (of_int (i + int k) - (of_int t - 1) / 2))).
        k \<leftarrow> [0..<n], 1 \<le> rx + (of_int (i + int k) - (of_int t - 1) / 2)
                      \<and> 1 \<le> ry + (of_int (i + int k) - (of_int t - 1) / 2)]"
  by (rule counted_loop_concat[where L = "\<lambda>n i. thick_ellipse_loop n i xc yc rx ry t"
        and F = "\<lambda>j. if 1 \<le> rx + (of_int j - (of_int t - 1) / 2)
                         \<and> 1 \<le> ry + (of_int j - (of_int t - 1) / 2)
                      then [DrawEllipse xc yc (py_int (rx + (of_int j - (of_int t - 1) / 2)))
                                              (py_int (ry + (of_int j - (of_int t - 1) / 2)))] else []"])
     (simp_all add: Let_def)

lemma py_int_ge_one: "(1 \<le> py_int x) = (1 \<le> x)"
  by (auto simp: py_int_def le_floor_iff)

text \<open>
  C5 as stated has a concentric shape skipped exactly when its radius
  \<open>r + (i - (t-1)/2)\<close> is non-positive, and drawn with that radius. For a circle
  of radius 1 and thickness 2 the first shape has radius \<open>0.5\<close>, which is positive,
  and is skipped; the second has radius \<open>1.5\<close> and is drawn with radius 1.
\<close>

theorem thick_skip_counterexample:
  "(0::real) < 1 + (of_int 0 - (of_int 2 - 1) / 2)
   \<and> draw_thick_object (CircleParams 0 0 1) 2 = [DrawCircle 0 0 1]"
  by (simp add: numeral_2_eq_2 py_int_def)

text \<open>
  C5, amended. For a circle or ellipse drawn thick with thickness \<open>t\<close>, the
  candidate radii \<open>r + (i - (t-1)/2)\<close>, \<open>i = 0..t-1\<close>, are taken in order; a
  candidate is drawn, as a solid shape whose radius is the candidate truncated to an
  integer, exactly when it is at least 1 (for an ellipse: when both candidates are),
  and is skipped otherwise, that is exactly when its truncated radius is non-positive.
  When the radius is an integer and the thickness is odd the candidates are integers,
  are drawn as they are, and are skipped exactly when non-positive.
\<close>

theorem thick_concentric_shapes:
  "draw_thick_object (CircleParams xc yc r) t =
     [DrawCircle xc yc (py_int (r + (of_nat i - (of_int t - 1) / 2))).
        i \<leftarrow> [0..<nat t], 1 \<le> r + (of_nat i - (of_int t - 1) / 2)]
   \<and> draw_thick_object (EllipseParams xc yc rx ry) t =
     [DrawEllipse xc yc (py_int (rx + (of_nat i - (of_int t - 1) / 2)))
                        (py_int (ry + (of_nat i - (of_int t - 1) / 2))).
        i \<leftarrow> [0..<nat t], 1 \<le> rx + (of_nat i - (of_int t - 1) / 2)
                          \<and> 1 \<le> ry + (of_nat i - (of_int t - 1) / 2)]
   \<and> (r + (of_nat i - (of_int t - 1) / 2) < 1)
       = (py_int (r + (of_nat i - (of_int t - 1) / 2)) \<le> 0)
   \<and> draw_thick_object (CircleParams xc yc (of_int k)) (2 * m + 1) =
     [DrawCircle xc yc (k + int i - m). i \<leftarrow> [0..<nat (2 * m + 1)], 0 < k + int i - m]"
proof -
  have a: "draw_thick_object (CircleParams xc yc r) t =
     [DrawCircle xc yc (py_int (r + (of_nat i - (of_int t - 1) / 2))).
        i \<leftarrow> [0..<nat t], 1 \<le> r + (of_nat i - (of_int t - 1) / 2)]" for r t
    by (simp add: thick_circle_loop_eq cong: if_cong)
  have b: "draw_thick_object (EllipseParams xc yc rx ry) t =
     [DrawEllipse xc yc (py_int (rx + (of_nat i - (of_int t - 1) / 2)))
                        (py_int (ry + (of_nat i - (of_int t - 1) / 2))).
        i \<leftarrow> [0..<nat t], 1 \<le> rx + (of_nat i - (of_int t - 1) / 2)
                          \<and> 1 \<le> ry + (of_nat i - (of_int t - 1) / 2)]"
    by (simp add: thick_ellipse_loop_eq cong: if_cong)
  have c: "(r + (of_nat i - (of_int t - 1) / 2) < 1)
       = (py_int (r + (of_nat i - (of_int t - 1) / 2)) \<le> 0)"
    using py_int_ge_one[of "r + (of_nat i - (of_int t - 1) / 2)"] by linarith
  have off: "real_of_int k + (of_nat i - (of_int (2 * m + 1) - 1) / 2) = of_int (k + int i - m)" for i
    by simp
  have d: "draw_thick_object (CircleParams xc yc (of_int k)) (2 * m + 1) =
     [DrawCircle xc yc (k + int i - m). i \<leftarrow> [0..<nat (2 * m + 1)], 0 < k + int i - m]"
    unfolding a off py_int_of_int
    by (rule arg_cong[where f = concat], rule map_cong) (auto simp: )
  from a b c d show ?thesis by blast
qed

section \<open>Radii of created circles and ellipses\<close>

lemma py_int_nonneg: "0 \<le> x \<Longrightarrow> 0 \<le> py_int x"
  by (simp add: py_int_def)

lemma is_positive_int_of_int: "is_positive_int (of_int k) = (1 \<le> k)"
  by (simp add: is_positive_int_def)

lemma is_positive_int_one: "is_positive_int 1"
  by (simp add: is_positive_int_def)

lemma is_positive_int_abs: "is_positive_int \<bar>of_int k\<bar> = (k \<noteq> 0)"
proof -
  have "\<bar>real_of_int k\<bar> = of_int \<bar>k\<bar>" by simp
  then show ?thesis by (simp only: is_positive_int_of_int) arith
qed

lemma click_branches_created:
  assumes "click_branches lx ly s = Inr s'"
  shows "(heap s' = heap s \<and> map obj_id (objects_to_draw s') = map obj_id (objects_to_draw s)
          \<and> next_object_id s' = next_object_id s)
       \<or> (\<exists>alg p. s' = append_object alg p s \<and> base_radii_ok p)"
proof -
  define Q where "Q t \<longleftrightarrow>
     (heap t = heap s \<and> map obj_id (objects_to_draw t) = map obj_id (objects_to_draw s)
          \<and> next_object_id t = next_object_id s)
       \<or> (\<exists>alg p. t = append_object alg p s \<and> base_radii_ok p)" for t
  have A: "base_radii_ok p \<Longrightarrow> Q (append_object alg p s)" for alg p
    unfolding Q_def by blast
  have B: "heap t = heap s \<Longrightarrow> map obj_id (objects_to_draw t) = map obj_id (objects_to_draw s)
      \<Longrightarrow> next_object_id t = next_object_id s \<Longrightarrow> Q t" for t
    unfolding Q_def by blast
  have r: "1 \<le> py_int (sqrt (of_int ((a - b) ^ 2 + (c - d) ^ 2)))"
    if "py_int (sqrt (of_int ((a - b) ^ 2 + (c - d) ^ 2))) \<noteq> 0" for a b c d :: int
  proof -
    have "0 \<le> py_int (sqrt (of_int ((a - b) ^ 2 + (c - d) ^ 2)))"
      by (rule py_int_nonneg) simp
    with that show ?thesis by simp
  qed
  have "Q s'"
    using assms
    by (auto simp: click_branches_def Let_def update_first_ids
          is_positive_int_of_int is_positive_int_one is_positive_int_abs
        simp del: of_int_add of_int_diff of_int_power
        split: if_splits sum.splits prod.splits option.splits
        intro!: A B r)
  then show ?thesis unfolding Q_def .
qed

text \<open>
  C10. A mouse click either creates nothing or appends exactly one object, whose base
  parameters are a new dictionary and which has no transformations; when that object
  is a circle its radius is an integer at least 1, and when it is an ellipse both
  \<open>rx\<close> and \<open>ry\<close> are integers at least 1 (a computed 0 having been replaced by 1).
\<close>

theorem created_radii_at_least_one:
  assumes "mousePressEvent dialog button x y s = Inr s'"
  shows "(heap s' = heap s \<and> length (objects_to_draw s') = length (objects_to_draw s))
       \<or> (\<exists>obj p. objects_to_draw s' = objects_to_draw s @ [obj]
              \<and> heap s' = heap s @ [p]
              \<and> obj_params obj = length (heap s)
              \<and> obj_transformations obj = []
              \<and> base_radii_ok p)"
proof -
  from mousePressEvent_cases[OF assms]
  consider "s' = s" | "s' = s\<lparr>current_mode := MODE_IDLE\<rparr>"
    | lx ly where "click_branches lx ly s = Inr s'"
    by blast
  then show ?thesis
  proof cases
    case 3
    from click_branches_created[OF this] show ?thesis
      by (auto simp: append_object_def dest: map_eq_imp_length_eq)
  qed simp_all
qed

theorem created_radii_at_least_one_witness:
  "mousePressEvent False True 500 350 example_radius_pending
     = Inr (append_object ''draw_circle'' (CircleParams 0 (- 10) 1) example_radius_pending)
   \<and> (\<exists>obj p. objects_to_draw
                  (append_object ''draw_circle'' (CircleParams 0 (- 10) 1) example_radius_pending)
                = objects_to_draw example_radius_pending @ [obj]
          \<and> heap (append_object ''draw_circle'' (CircleParams 0 (- 10) 1) example_radius_pending)
                = heap example_radius_pending @ [p]
          \<and> obj_params obj = 2
          \<and> base_radii_ok p)"
proof -
  let ?s' = "append_object ''draw_circle'' (CircleParams 0 (- 10) 1) example_radius_pending"
  have m: "mousePressEvent False True 500 350 example_radius_pending = Inr ?s'"
    by (simp add: mousePressEvent_def click_branches_def example_radius_pending_def
        example_editor_def Let_def GRID_SPACING_def py_round_def py_int_def py_index_def
        screen_to_logical_def)
  have h: "heap ?s' \<noteq> heap example_radius_pending"
    by (simp add: append_object_def)
  have l: "length (heap example_radius_pending) = 2"
    by (simp add: example_radius_pending_def example_editor_def)
  from created_radii_at_least_one[OF m] h l
  have "\<exists>obj p. objects_to_draw ?s' = objects_to_draw example_radius_pending @ [obj]
          \<and> heap ?s' = heap example_radius_pending @ [p]
          \<and> obj_params obj = 2
          \<and> base_radii_ok p"
    by auto
  with m show ?thesis by blast
qed

section \<open>Object ids\<close>












section \<open>The next object id\<close>




section \<open>The clamped projection is the closest point of the segment\<close>




section \<open>Hit test of a line\<close>







end
